theory Spec2Isabelle
  imports Main "HOL-Library.Word"
begin

section \<open>Tokens\<close>

text \<open>
  Modelled from the spec: the token enumeration of \<^verbatim>\<open>token.h\<close>, which is not part of
  the sources. The sources use its members by name; where the lexer stores the literal ids
  2 and 3 these are the identifier and the number token.
\<close>

datatype token_type =
    nulsym | identsym | numbersym | plussym | minussym | multsym | slashsym | oddsym
  | eqsym | neqsym | lessym | leqsym | gtrsym | geqsym | lparentsym | rparentsym
  | commasym | semicolonsym | periodsym | becomessym | beginsym | endsym | ifsym
  | thensym | whilesym | dosym | callsym | constsym | varsym | procsym | writesym
  | readsym | elsesym

record Token =
  tok_id :: token_type
  lexeme :: string

text \<open>
  Modelled from the spec: the reserved-word table \<^verbatim>\<open>tokens[firstReservedToken ..
  lastReservedToken]\<close> of \<^verbatim>\<open>token.h\<close>, the closed keyword set of the language.
\<close>

definition reserved_tokens :: "(string \<times> token_type) list" where
  "reserved_tokens =
     [(''odd'', oddsym), (''begin'', beginsym), (''end'', endsym), (''if'', ifsym),
      (''then'', thensym), (''while'', whilesym), (''do'', dosym), (''call'', callsym),
      (''const'', constsym), (''var'', varsym), (''procedure'', procsym),
      (''write'', writesym), (''read'', readsym), (''else'', elsesym)]"

text \<open>Modelled from the spec: \<^verbatim>\<open>MAX_LEXEME_LENGTH\<close> of \<^verbatim>\<open>data.h\<close>, the longest lexeme (11).\<close>

definition MAX_LEXEME_LENGTH :: nat where
  "MAX_LEXEME_LENGTH = 11"

section \<open>The lexer (lexical\_analyzer.c)\<close>

datatype SymbolType = ALPHA | DIGIT | SPECIAL | INVALID

datatype LexErr =
  NONE | NAME_TOO_LONG | NUM_TOO_LONG | NONLETTER_VAR_INITIAL | INV_SYM | NO_SOURCE_CODE

text \<open>
  The source text is the list of characters before the terminating NUL. Reading index
  \<open>length src\<close> yields the terminator; reading any later index leaves the string, which
  the model records as the fault \<open>ReadPastEnd\<close>. A store outside the lexeme buffer of
  \<^verbatim>\<open>DFA_Alpha\<close> and \<^verbatim>\<open>DFA_Digit\<close> is the fault \<open>LexemeOverflow\<close>.
\<close>

datatype lex_fault = ReadPastEnd | LexemeOverflow

record LexerState =
  lineNum :: int
  charInd :: nat
  sourceCode :: string
  lexerError :: LexErr
  tokenList :: "Token list"

text \<open>
  The result record. On the NULL path the source never assigns the token list, so the
  field is optional: \<open>None\<close> is a token list that was never set.
\<close>

record LexerOut =
  out_lexerError :: LexErr
  errorLine :: int
  out_tokenList :: "Token list option"

definition NUL :: char where
  "NUL = CHR 0x00"

definition src_at :: "string \<Rightarrow> nat \<Rightarrow> char option" where
  "src_at src i =
     (if i < length src then Some (src ! i)
      else if i = length src then Some NUL
      else None)"

definition isalpha :: "char \<Rightarrow> bool" where
  "isalpha c = (let n = (of_char c :: nat) in (65 \<le> n \<and> n \<le> 90) \<or> (97 \<le> n \<and> n \<le> 122))"

definition isdigit :: "char \<Rightarrow> bool" where
  "isdigit c = (let n = (of_char c :: nat) in 48 \<le> n \<and> n \<le> 57)"

definition isSpecialSymbol :: "char \<Rightarrow> bool" where
  "isSpecialSymbol c =
     (c = CHR ''+'' \<or> c = CHR ''-'' \<or> c = CHR ''*'' \<or> c = CHR ''/'' \<or>
      c = CHR ''('' \<or> c = CHR '')'' \<or> c = CHR ''='' \<or> c = CHR '','' \<or>
      c = CHR ''.'' \<or> c = CHR ''<'' \<or> c = CHR ''>'' \<or> c = CHR '';'' \<or>
      c = CHR '':'')"

definition getSymbolType :: "char \<Rightarrow> SymbolType" where
  "getSymbolType c =
     (if isalpha c then ALPHA
      else if isdigit c then DIGIT
      else if isSpecialSymbol c then SPECIAL
      else INVALID)"

definition checkReservedTokens :: "string \<Rightarrow> token_type option" where
  "checkReservedTokens symbol = map_of reserved_tokens symbol"

definition initLexerState :: "string \<Rightarrow> LexerState" where
  "initLexerState src =
     \<lparr>lineNum = 0, charInd = 0, sourceCode = src, lexerError = NONE, tokenList = []\<rparr>"

definition addToken :: "LexerState \<Rightarrow> Token \<Rightarrow> LexerState" where
  "addToken st t = st\<lparr>tokenList := tokenList st @ [t]\<rparr>"

subsection \<open>DFA\_Alpha\<close>

text \<open>
  The \<^verbatim>\<open>for\<close> loop shared in shape by \<^verbatim>\<open>DFA_Alpha\<close> and \<^verbatim>\<open>DFA_Digit\<close>. The counter
  \<open>i\<close> starts at 1, the buffer \<open>lx\<close> holds the characters stored at indices
  \<open>0 .. i - 2\<close>. The result says whether the loop left through its \<^verbatim>\<open>return\<close>.

  The buffer is \<^verbatim>\<open>char lexeme[MAX_LEXEME_LENGTH + 1]\<close>: its cells are the indices
  \<open>0 .. MAX_LEXEME_LENGTH\<close>. The loop stores at index \<open>i - 1\<close>; after the loop the source
  stores the terminator at index \<open>i\<close> (after \<^verbatim>\<open>i--\<close>), before it tests the length. Each
  store is checked against the cells of the buffer.
\<close>

definition lexeme_cell :: "nat \<Rightarrow> bool" where
  "lexeme_cell k = (k < MAX_LEXEME_LENGTH + 1)"

function DFA_Alpha_loop ::
  "nat \<Rightarrow> string \<Rightarrow> LexerState \<Rightarrow> lex_fault + (bool \<times> nat \<times> string \<times> LexerState)" where
  "DFA_Alpha_loop i lx st =
     (case src_at (sourceCode st) (charInd st) of
        None \<Rightarrow> Inl ReadPastEnd
      | Some c \<Rightarrow>
          if isalpha c \<or> isdigit c then
            (let st1 = st\<lparr>charInd := charInd st + 1\<rparr> in
             if i - 1 > MAX_LEXEME_LENGTH
             then Inr (True, i, lx, st1\<lparr>lexerError := NAME_TOO_LONG\<rparr>)
             else if \<not> lexeme_cell (i - 1) then Inl LexemeOverflow
             else DFA_Alpha_loop (i + 1) (lx @ [c]) st1)
          else Inr (False, i, lx, st))"
  by pat_completeness auto
termination
  by (relation "measure (\<lambda>(i, lx, st). Suc (length (sourceCode st)) - charInd st)")
     (auto simp: src_at_def split: if_splits)

definition DFA_Alpha :: "LexerState \<Rightarrow> lex_fault + LexerState" where
  "DFA_Alpha st =
     (case DFA_Alpha_loop 1 [] st of
        Inl f \<Rightarrow> Inl f
      | Inr (returned, i0, lx, st1) \<Rightarrow>
          if returned then Inr st1
          else
            (let i = i0 - 1 in
             if \<not> lexeme_cell i then Inl LexemeOverflow
             else if i > 11 then Inr (st1\<lparr>lexerError := NAME_TOO_LONG\<rparr>)
             else
               (case checkReservedTokens lx of
                  Some reservedToken \<Rightarrow>
                    Inr (addToken st1 \<lparr>tok_id = reservedToken, lexeme = lx\<rparr>)
                | None \<Rightarrow> Inr (addToken st1 \<lparr>tok_id = identsym, lexeme = lx\<rparr>))))"

subsection \<open>DFA\_Digit\<close>

function DFA_Digit_loop ::
  "nat \<Rightarrow> bool \<Rightarrow> string \<Rightarrow> LexerState \<Rightarrow> lex_fault + (bool \<times> nat \<times> string \<times> LexerState)" where
  "DFA_Digit_loop i yesAlpha lx st =
     (case src_at (sourceCode st) (charInd st) of
        None \<Rightarrow> Inl ReadPastEnd
      | Some c \<Rightarrow>
          if isalpha c \<or> isdigit c then
            (let st1 = st\<lparr>charInd := charInd st + 1\<rparr>;
                 yesAlpha1 = (if isalpha c then True else yesAlpha) in
             if i - 1 > MAX_LEXEME_LENGTH
             then Inr (True, i, lx, st1\<lparr>lexerError := NUM_TOO_LONG\<rparr>)
             else if \<not> lexeme_cell (i - 1) then Inl LexemeOverflow
             else if yesAlpha1
             then Inr (True, i, lx @ [c], st1\<lparr>lexerError := NONLETTER_VAR_INITIAL\<rparr>)
             else DFA_Digit_loop (i + 1) yesAlpha1 (lx @ [c]) st1)
          else Inr (False, i, lx, st))"
  by pat_completeness auto
termination
  by (relation "measure (\<lambda>(i, y, lx, st). Suc (length (sourceCode st)) - charInd st)")
     (auto simp: src_at_def split: if_splits)

definition DFA_Digit :: "LexerState \<Rightarrow> lex_fault + LexerState" where
  "DFA_Digit st =
     (case DFA_Digit_loop 1 False [] st of
        Inl f \<Rightarrow> Inl f
      | Inr (returned, i0, lx, st1) \<Rightarrow>
          if returned then Inr st1
          else
            (let i = i0 - 1 in
             if \<not> lexeme_cell i then Inl LexemeOverflow
             else if i > 5 then Inr (st1\<lparr>lexerError := NUM_TOO_LONG\<rparr>)
             else Inr (addToken st1 \<lparr>tok_id = numbersym, lexeme = lx\<rparr>)))"

subsection \<open>DFA\_Special\<close>

text \<open>
  The comment scanner: the \<^verbatim>\<open>while (exit == 0)\<close> loop. It advances first and tests
  afterwards, and it has no test for the terminator.
\<close>

function comment_loop :: "LexerState \<Rightarrow> lex_fault + LexerState" where
  "comment_loop st =
     (let st1 = st\<lparr>charInd := charInd st + 1\<rparr> in
      case src_at (sourceCode st1) (charInd st1) of
        None \<Rightarrow> Inl ReadPastEnd
      | Some c \<Rightarrow>
          if c = CHR ''*'' then
            (case src_at (sourceCode st1) (charInd st1 + 1) of
               None \<Rightarrow> Inl ReadPastEnd
             | Some d \<Rightarrow>
                 if d = CHR ''/'' then Inr (st1\<lparr>charInd := charInd st1 + 2\<rparr>)
                 else comment_loop st1)
          else comment_loop st1)"
  by pat_completeness auto
termination
  by (relation "measure (\<lambda>st. Suc (length (sourceCode st)) - charInd st)")
     (auto simp: src_at_def split: if_splits)

definition advance :: "LexerState \<Rightarrow> LexerState" where
  "advance st = st\<lparr>charInd := charInd st + 1\<rparr>"

definition single_tok :: "LexerState \<Rightarrow> token_type \<Rightarrow> string \<Rightarrow> lex_fault + LexerState" where
  "single_tok st t lx = Inr (advance (addToken st \<lparr>tok_id = t, lexeme = lx\<rparr>))"

definition double_tok :: "LexerState \<Rightarrow> token_type \<Rightarrow> string \<Rightarrow> lex_fault + LexerState" where
  "double_tok st t lx = Inr (advance (addToken (advance st) \<lparr>tok_id = t, lexeme = lx\<rparr>))"

text \<open>
  \<^verbatim>\<open>DFA_Special\<close>: \<open>c\<close> is the character at \<open>charInd\<close>; the branches that look
  one character ahead read it through \<open>with_next\<close>. Every branch but the closed comment
  runs into the final \<^verbatim>\<open>charInd++\<close>; the branch of a \<open>:\<close> without \<open>=\<close> is empty in the
  source.
\<close>

definition with_next ::
  "LexerState \<Rightarrow> (char \<Rightarrow> lex_fault + LexerState) \<Rightarrow> lex_fault + LexerState" where
  "with_next st k =
     (case src_at (sourceCode st) (charInd st + 1) of
        None \<Rightarrow> Inl ReadPastEnd
      | Some d \<Rightarrow> k d)"

definition DFA_Special :: "LexerState \<Rightarrow> lex_fault + LexerState" where
  "DFA_Special st =
     (case src_at (sourceCode st) (charInd st) of
        None \<Rightarrow> Inl ReadPastEnd
      | Some c \<Rightarrow>
          if c = CHR ''/'' then
            with_next st (\<lambda>d.
              if d = CHR ''*'' then comment_loop (advance st)
              else single_tok st slashsym ''/'')
          else if c = CHR ''<'' then
            with_next st (\<lambda>d.
              if d = CHR ''='' then double_tok st leqsym ''<=''
              else if d = CHR ''>'' then double_tok st neqsym ''<>''
              else single_tok st lessym ''<'')
          else if c = CHR '':'' then
            with_next st (\<lambda>d.
              if d = CHR ''='' then double_tok st becomessym '':=''
              else Inr (advance st))
          else if c = CHR ''>'' then
            with_next st (\<lambda>d.
              if d = CHR ''='' then double_tok st geqsym ''>=''
              else single_tok st gtrsym ''>'')
          else if c = CHR ''+'' then single_tok st plussym ''+''
          else if c = CHR '')'' then single_tok st rparentsym '')''
          else if c = CHR ''-'' then single_tok st minussym ''-''
          else if c = CHR ''='' then single_tok st eqsym ''=''
          else if c = CHR '','' then single_tok st commasym '',''
          else if c = CHR ''*'' then single_tok st multsym ''*''
          else if c = CHR '';'' then single_tok st semicolonsym '';''
          else if c = CHR ''/'' then single_tok st slashsym ''/''
          else if c = CHR ''('' then single_tok st lparentsym ''(''
          else if c = CHR ''.'' then single_tok st periodsym ''.''
          else Inr (advance st))"

subsection \<open>lexicalAnalyzer\<close>

text \<open>The inner loop that skips blanks and newlines; \<open>currentSymbol\<close> is its local.\<close>

function skip_blanks :: "char \<Rightarrow> LexerState \<Rightarrow> lex_fault + (char \<times> LexerState)" where
  "skip_blanks currentSymbol st =
     (if currentSymbol = CHR '' '' \<or> currentSymbol = CHR 0x0A then
        (let st1 = (if currentSymbol = CHR 0x0A then st\<lparr>lineNum := lineNum st + 1\<rparr> else st);
             st2 = st1\<lparr>charInd := charInd st1 + 1\<rparr> in
         case src_at (sourceCode st2) (charInd st2) of
           None \<Rightarrow> Inl ReadPastEnd
         | Some c \<Rightarrow> skip_blanks c st2)
      else Inr (currentSymbol, st))"
  by pat_completeness auto
termination
  by (relation "measure (\<lambda>(c, st). Suc (length (sourceCode st)) - charInd st)")
     (auto simp: src_at_def split: if_splits)

subsection \<open>Progress of the sub-automata\<close>

text \<open>
  Each sub-automaton leaves the source text alone and moves \<open>charInd\<close> forward. These
  facts carry the termination proof of the main loop.
\<close>

lemma lexeme_cell_iff [simp]: "lexeme_cell k \<longleftrightarrow> \<not> MAX_LEXEME_LENGTH < k"
  by (auto simp: lexeme_cell_def)

declare DFA_Alpha_loop.simps [simp del] DFA_Digit_loop.simps [simp del] comment_loop.simps [simp del] skip_blanks.simps [simp del]

lemma DFA_Alpha_loop_mono:
  "DFA_Alpha_loop i lx st = Inr (b, i', lx', st') \<Longrightarrow>
     sourceCode st' = sourceCode st \<and> charInd st \<le> charInd st'"
proof (induction i lx st rule: DFA_Alpha_loop.induct)
  case (1 i lx st)
  obtain c where c: "src_at (sourceCode st) (charInd st) = Some c"
    using "1.prems" by (subst (asm) DFA_Alpha_loop.simps) (auto split: option.splits)
  show ?case
  proof (cases "isalpha c \<or> isdigit c")
    case False
    then show ?thesis
      using "1.prems" c by (subst (asm) DFA_Alpha_loop.simps) auto
  next
    case alnum: True
    show ?thesis
    proof (cases "i - 1 > MAX_LEXEME_LENGTH")
      case True
      then show ?thesis
        using "1.prems" c alnum by (subst (asm) DFA_Alpha_loop.simps) (auto simp: Let_def)
    next
      case False
      have rec: "DFA_Alpha_loop (i + 1) (lx @ [c]) (st\<lparr>charInd := charInd st + 1\<rparr>) = Inr (b, i', lx', st')"
        using "1.prems" c alnum False by (subst (asm) DFA_Alpha_loop.simps) (simp add: Let_def)
      have cell: "\<not> \<not> lexeme_cell (i - 1)" using False by simp
      from "1.IH" [OF c alnum refl False cell rec] show ?thesis by simp
    qed
  qed
qed

lemma DFA_Alpha_loop_strict:
  assumes "DFA_Alpha_loop i lx st = Inr (b, i', lx', st')"
    and "src_at (sourceCode st) (charInd st) = Some c" and "isalpha c \<or> isdigit c"
  shows "charInd st < charInd st'"
proof (cases "i - 1 > MAX_LEXEME_LENGTH")
  case True
  then show ?thesis
    using assms by (subst (asm) DFA_Alpha_loop.simps) (auto simp: Let_def)
next
  case False
  have rec: "DFA_Alpha_loop (i + 1) (lx @ [c]) (st\<lparr>charInd := charInd st + 1\<rparr>) = Inr (b, i', lx', st')"
    using assms False by (subst (asm) DFA_Alpha_loop.simps) (simp add: Let_def)
  from DFA_Alpha_loop_mono [OF rec] show ?thesis by simp
qed

lemma DFA_Alpha_progress:
  assumes "DFA_Alpha st = Inr st'"
    and "src_at (sourceCode st) (charInd st) = Some c" and "isalpha c \<or> isdigit c"
  shows "sourceCode st' = sourceCode st \<and> charInd st < charInd st'"
proof -
  obtain b i' lx' st1 where l: "DFA_Alpha_loop 1 [] st = Inr (b, i', lx', st1)"
    using assms(1) by (auto simp: DFA_Alpha_def split: sum.splits)
  have st': "sourceCode st' = sourceCode st1 \<and> charInd st' = charInd st1"
    using assms(1) l
    by (auto simp: DFA_Alpha_def addToken_def Let_def split: if_splits option.splits)
  from DFA_Alpha_loop_mono [OF l] DFA_Alpha_loop_strict [OF l assms(2,3)] st'
  show ?thesis by simp
qed

lemma DFA_Digit_loop_mono:
  "DFA_Digit_loop i y lx st = Inr (b, i', lx', st') \<Longrightarrow>
     sourceCode st' = sourceCode st \<and> charInd st \<le> charInd st'"
proof (induction i y lx st rule: DFA_Digit_loop.induct)
  case (1 i y lx st)
  obtain c where c: "src_at (sourceCode st) (charInd st) = Some c"
    using "1.prems" by (subst (asm) DFA_Digit_loop.simps) (auto split: option.splits)
  show ?case
  proof (cases "isalpha c \<or> isdigit c")
    case False
    then show ?thesis
      using "1.prems" c by (subst (asm) DFA_Digit_loop.simps) auto
  next
    case alnum: True
    show ?thesis
    proof (cases "i - 1 > MAX_LEXEME_LENGTH \<or> (if isalpha c then True else y)")
      case True
      then show ?thesis
        using "1.prems" c alnum
        by (subst (asm) DFA_Digit_loop.simps) (auto simp: Let_def split: if_splits)
    next
      case False
      then have a: "\<not> i - 1 > MAX_LEXEME_LENGTH" and b: "\<not> (if isalpha c then True else y)"
        by simp_all
      have rec: "DFA_Digit_loop (i + 1) (if isalpha c then True else y) (lx @ [c])
                   (st\<lparr>charInd := charInd st + 1\<rparr>) = Inr (b, i', lx', st')"
        using "1.prems" c alnum False
        by (subst (asm) DFA_Digit_loop.simps) (simp add: Let_def split: if_splits)
      have cell: "\<not> \<not> lexeme_cell (i - 1)" using a by simp
      from "1.IH" [OF c alnum refl refl a cell b rec] show ?thesis by simp
    qed
  qed
qed

lemma DFA_Digit_loop_strict:
  assumes "DFA_Digit_loop i y lx st = Inr (b, i', lx', st')"
    and "src_at (sourceCode st) (charInd st) = Some c" and "isalpha c \<or> isdigit c"
  shows "charInd st < charInd st'"
proof (cases "i - 1 > MAX_LEXEME_LENGTH \<or> (if isalpha c then True else y)")
  case True
  then show ?thesis
    using assms by (subst (asm) DFA_Digit_loop.simps) (auto simp: Let_def split: if_splits)
next
  case False
  have rec: "DFA_Digit_loop (i + 1) (if isalpha c then True else y) (lx @ [c])
               (st\<lparr>charInd := charInd st + 1\<rparr>) = Inr (b, i', lx', st')"
    using assms False by (subst (asm) DFA_Digit_loop.simps) (simp add: Let_def split: if_splits)
  from DFA_Digit_loop_mono [OF rec] show ?thesis by simp
qed

lemma DFA_Digit_progress:
  assumes "DFA_Digit st = Inr st'"
    and "src_at (sourceCode st) (charInd st) = Some c" and "isalpha c \<or> isdigit c"
  shows "sourceCode st' = sourceCode st \<and> charInd st < charInd st'"
proof -
  obtain b i' lx' st1 where l: "DFA_Digit_loop 1 False [] st = Inr (b, i', lx', st1)"
    using assms(1) by (auto simp: DFA_Digit_def split: sum.splits)
  have st': "sourceCode st' = sourceCode st1 \<and> charInd st' = charInd st1"
    using assms(1) l
    by (auto simp: DFA_Digit_def addToken_def Let_def split: if_splits)
  from DFA_Digit_loop_mono [OF l] DFA_Digit_loop_strict [OF l assms(2,3)] st'
  show ?thesis by simp
qed

lemma comment_loop_progress:
  "comment_loop st = Inr st' \<Longrightarrow> sourceCode st' = sourceCode st \<and> charInd st < charInd st'"
proof (induction st rule: comment_loop.induct)
  case (1 st)
  let ?st1 = "st\<lparr>charInd := charInd st + 1\<rparr>"
  obtain c where c: "src_at (sourceCode ?st1) (charInd ?st1) = Some c"
    using "1.prems" by (subst (asm) comment_loop.simps) (auto simp: Let_def split: option.splits)
  show ?case
  proof (cases "c = CHR ''*''")
    case False
    have rec: "comment_loop ?st1 = Inr st'"
      using "1.prems" c False by (subst (asm) comment_loop.simps) (simp add: Let_def)
    from "1.IH"(2) [OF refl c False rec] show ?thesis by simp
  next
    case star: True
    obtain d where d: "src_at (sourceCode ?st1) (charInd ?st1 + 1) = Some d"
      using "1.prems" c star
      by (subst (asm) comment_loop.simps) (auto simp: Let_def split: option.splits)
    show ?thesis
    proof (cases "d = CHR ''/''")
      case True
      then show ?thesis
        using "1.prems" c star d by (subst (asm) comment_loop.simps) (auto simp: Let_def)
    next
      case False
      have rec: "comment_loop ?st1 = Inr st'"
        using "1.prems" c star d False by (subst (asm) comment_loop.simps) (simp add: Let_def)
      from "1.IH"(1) [OF refl c star d False rec] show ?thesis by simp
    qed
  qed
qed

lemma DFA_Special_progress:
  "DFA_Special st = Inr st' \<Longrightarrow> sourceCode st' = sourceCode st \<and> charInd st < charInd st'"
  by (auto simp: DFA_Special_def with_next_def single_tok_def double_tok_def advance_def
        addToken_def split: option.splits if_splits dest!: comment_loop_progress)

lemma skip_blanks_progress:
  "skip_blanks c st = Inr (c', st') \<Longrightarrow> src_at (sourceCode st) (charInd st) = Some c \<Longrightarrow>
     sourceCode st' = sourceCode st \<and> charInd st \<le> charInd st' \<and> lexerError st' = lexerError st \<and>
     src_at (sourceCode st') (charInd st') = Some c'"
proof (induction c st rule: skip_blanks.induct)
  case (1 c st)
  show ?case
  proof (cases "c = CHR '' '' \<or> c = CHR 0x0A")
    case False
    then show ?thesis
      using "1.prems" by (subst (asm) skip_blanks.simps) auto
  next
    case True
    let ?st1 = "if c = CHR 0x0A then st\<lparr>lineNum := lineNum st + 1\<rparr> else st"
    let ?st2 = "?st1\<lparr>charInd := charInd ?st1 + 1\<rparr>"
    obtain e where e: "src_at (sourceCode ?st2) (charInd ?st2) = Some e"
      using "1.prems"(1) True
      by (subst (asm) skip_blanks.simps) (auto simp: Let_def split: option.splits if_splits)
    have rec: "skip_blanks e ?st2 = Inr (c', st')"
      using "1.prems"(1) True e
      by (subst (asm) skip_blanks.simps) (auto simp: Let_def split: option.splits if_splits)
    from "1.IH" [OF True refl refl e rec e] show ?thesis by (auto split: if_splits)
  qed
qed


lemma getSymbolType_ALPHA: "getSymbolType c = ALPHA \<Longrightarrow> isalpha c"
  by (simp add: getSymbolType_def split: if_splits)

lemma getSymbolType_DIGIT: "getSymbolType c = DIGIT \<Longrightarrow> isdigit c"
  by (simp add: getSymbolType_def split: if_splits)

lemma src_at_not_NUL: "src_at src i = Some c \<Longrightarrow> c \<noteq> NUL \<Longrightarrow> i < length src"
  by (auto simp: src_at_def split: if_splits)

text \<open>
  The main loop of \<^verbatim>\<open>lexicalAnalyzer\<close>: while the current character is not the
  terminator and no error is set, skip blanks, leave at the terminator, otherwise dispatch
  on the type of the current symbol.
\<close>

function lex_loop :: "LexerState \<Rightarrow> lex_fault + LexerState" where
  "lex_loop st =
     (case src_at (sourceCode st) (charInd st) of
        None \<Rightarrow> Inl ReadPastEnd
      | Some c0 \<Rightarrow>
          if c0 \<noteq> NUL \<and> lexerError st = NONE then
            (case skip_blanks c0 st of
               Inl f \<Rightarrow> Inl f
             | Inr (currentSymbol, st1) \<Rightarrow>
                 (case src_at (sourceCode st1) (charInd st1) of
                    None \<Rightarrow> Inl ReadPastEnd
                  | Some c1 \<Rightarrow>
                      if c1 = NUL then Inr st1
                      else
                        (case getSymbolType currentSymbol of
                           ALPHA \<Rightarrow>
                             (case DFA_Alpha st1 of Inl f \<Rightarrow> Inl f | Inr st2 \<Rightarrow> lex_loop st2)
                         | DIGIT \<Rightarrow>
                             (case DFA_Digit st1 of Inl f \<Rightarrow> Inl f | Inr st2 \<Rightarrow> lex_loop st2)
                         | SPECIAL \<Rightarrow>
                             (case DFA_Special st1 of Inl f \<Rightarrow> Inl f | Inr st2 \<Rightarrow> lex_loop st2)
                         | INVALID \<Rightarrow> lex_loop (st1\<lparr>lexerError := INV_SYM\<rparr>))))
          else Inr st)"
  by pat_completeness auto

termination
proof (relation "measure (\<lambda>st. 2 * (length (sourceCode st) - charInd st) +
                             (if lexerError st = NONE then 1 else 0))", goal_cases)
  case 1
  show ?case by simp
next
  case (2 st c0 x currentSymbol st1 c1 st2)
  from skip_blanks_progress [of c0 st currentSymbol st1] 2
  have s: "sourceCode st1 = sourceCode st" "charInd st \<le> charInd st1"
    "src_at (sourceCode st1) (charInd st1) = Some currentSymbol" by auto
  from DFA_Alpha_progress [OF 2(8) s(3)] getSymbolType_ALPHA [OF 2(7)]
  have "sourceCode st2 = sourceCode st1 \<and> charInd st1 < charInd st2" by simp
  moreover have "charInd st < length (sourceCode st)"
    using 2 src_at_not_NUL by blast
  ultimately show ?case using s by (auto split: if_splits)
next
  case (3 st c0 x currentSymbol st1 c1 st2)
  from skip_blanks_progress [of c0 st currentSymbol st1] 3
  have s: "sourceCode st1 = sourceCode st" "charInd st \<le> charInd st1"
    "src_at (sourceCode st1) (charInd st1) = Some currentSymbol" by auto
  from DFA_Digit_progress [OF 3(8) s(3)] getSymbolType_DIGIT [OF 3(7)]
  have "sourceCode st2 = sourceCode st1 \<and> charInd st1 < charInd st2" by simp
  moreover have "charInd st < length (sourceCode st)"
    using 3 src_at_not_NUL by blast
  ultimately show ?case using s by (auto split: if_splits)
next
  case (4 st c0 x currentSymbol st1 c1 st2)
  from skip_blanks_progress [of c0 st currentSymbol st1] 4
  have s: "sourceCode st1 = sourceCode st" "charInd st \<le> charInd st1" by auto
  from DFA_Special_progress [OF 4(8)]
  have "sourceCode st2 = sourceCode st1 \<and> charInd st1 < charInd st2" by simp
  moreover have "charInd st < length (sourceCode st)"
    using 4 src_at_not_NUL by blast
  ultimately show ?case using s by (auto split: if_splits)
next
  case (5 st c0 x currentSymbol st1 c1)
  from skip_blanks_progress [of c0 st currentSymbol st1] 5
  have s: "sourceCode st1 = sourceCode st" "charInd st \<le> charInd st1" by auto
  then show ?case using 5 by simp
qed

declare lex_loop.simps [simp del]

definition lexicalAnalyzer :: "string option \<Rightarrow> lex_fault + LexerOut" where
  "lexicalAnalyzer src_ptr =
     (case src_ptr of
        None \<Rightarrow>
          Inr \<lparr>out_lexerError = NO_SOURCE_CODE, errorLine = - 1, out_tokenList = None\<rparr>
      | Some src \<Rightarrow>
          (case lex_loop (initLexerState src) of
             Inl f \<Rightarrow> Inl f
           | Inr st \<Rightarrow>
               if lexerError st \<noteq> NONE
               then Inr \<lparr>out_lexerError = lexerError st, errorLine = lineNum st,
                         out_tokenList = Some (tokenList st)\<rparr>
               else Inr \<lparr>out_lexerError = NONE, errorLine = - 1,
                         out_tokenList = Some (tokenList st)\<rparr>))"



section \<open>The code generator (code\_generator.c)\<close>

subsection \<open>Symbols, instructions and the missing headers\<close>

text \<open>
  Modelled from the spec: the \<^verbatim>\<open>Symbol\<close> struct of \<^verbatim>\<open>symbol.h\<close>, which is not part of
  the sources: a name, a kind, the nesting level of the declaration, a value and an
  address. The level is unsigned, as \<^verbatim>\<open>currentLevel\<close> is.
\<close>

datatype sym_kind = CONST_kind | VAR_kind | PROC_kind

record Symbol =
  name :: string
  sym_type :: sym_kind
  level :: "32 word"
  sym_value :: int
  address :: int

record Instruction =
  ins_op :: int
  ins_r :: int
  ins_l :: int
  ins_m :: int

text \<open>
  Modelled from the spec: the opcode numbers of \<^verbatim>\<open>data.h\<close>, as the opcode table of the
  virtual machine has them, and \<^verbatim>\<open>MAX_CODE_LENGTH\<close>, the capacity of the code memory.
\<close>

definition LIT :: int where "LIT = 1"
definition RTN :: int where "RTN = 2"
definition LOD :: int where "LOD = 3"
definition STO :: int where "STO = 4"
definition CAL :: int where "CAL = 5"
definition INC :: int where "INC = 6"
definition JMP :: int where "JMP = 7"
definition JPC :: int where "JPC = 8"
definition SIO_WRITE :: int where "SIO_WRITE = 9"
definition SIO_READ :: int where "SIO_READ = 10"
definition SIO_HALT :: int where "SIO_HALT = 11"
definition NEG :: int where "NEG = 12"
definition ADD :: int where "ADD = 13"
definition SUB :: int where "SUB = 14"
definition MUL :: int where "MUL = 15"
definition DIV :: int where "DIV = 16"
definition ODD :: int where "ODD = 17"
definition MOD :: int where "MOD = 18"
definition EQL :: int where "EQL = 19"
definition NEQ :: int where "NEQ = 20"
definition LSS :: int where "LSS = 21"
definition LEQ :: int where "LEQ = 22"
definition GTR :: int where "GTR = 23"
definition GEQ :: int where "GEQ = 24"

definition MAX_CODE_LENGTH :: nat where
  "MAX_CODE_LENGTH = 500"

text \<open>
  The file-scope globals of the code generator as one state. \<open>it_tokenList\<close> and
  \<open>currentTokenInd\<close> are the token list iterator; \<open>nextCodeIndex\<close> is the length of
  \<open>vmCode\<close>, the instructions emitted so far. \<open>currentScope\<close> is a pointer to a local
  \<^verbatim>\<open>Symbol\<close> of \<^verbatim>\<open>proc_declaration\<close> in the source; the model keeps the table index
  that symbol is stored at.

  The source declares its \<^verbatim>\<open>Symbol\<close> objects without initialising them and fills in
  some fields only. \<open>uninit k\<close> is the indeterminate content of the object that becomes
  table entry \<open>k\<close>; a field the source never writes keeps that content.
\<close>

record CG =
  it_tokenList :: "Token list"
  currentTokenInd :: nat
  currentLevel :: "32 word"
  currentScope :: "nat option"
  symbolTable :: "Symbol list"
  vmCode :: "Instruction list"
  currentReg :: int
  uninit :: "nat \<Rightarrow> Symbol"

text \<open>
  How a production ends other than by returning 0: \<open>Err n\<close> is the error code \<open>n\<close>
  returned; \<open>NullSymbol\<close> is the dereference of the NULL that \<^verbatim>\<open>findSymbol\<close> returned;
  \<open>CodeFull\<close> is the \<^verbatim>\<open>exit\<close> of \<^verbatim>\<open>emit\<close> at \<^verbatim>\<open>MAX_CODE_LENGTH\<close>; \<open>OutOfFuel\<close> is the
  model's recursion bound reached.
\<close>

datatype cg_stop = Err nat | NullSymbol | CodeFull | OutOfFuel

definition bnd :: "'e + 'a \<Rightarrow> ('a \<Rightarrow> 'e + 'b) \<Rightarrow> 'e + 'b" where
  "bnd x f = (case x of Inl e \<Rightarrow> Inl e | Inr a \<Rightarrow> f a)"

text \<open>
  Modelled from the spec: \<^verbatim>\<open>findSymbol\<close> and \<^verbatim>\<open>addSymbol\<close> of \<^verbatim>\<open>symbol.h\<close>. The lookup
  returns the most recently declared symbol of the name whose level is at most the current
  level, or nothing (NULL); the source passes \<^verbatim>\<open>currentScope\<close>, the model the current level
  the spec words the lookup with. Adding appends.
\<close>

definition findSymbol :: "Symbol list \<Rightarrow> 32 word \<Rightarrow> string \<Rightarrow> Symbol option" where
  "findSymbol tbl lvl nm = List.find (\<lambda>sy. name sy = nm \<and> level sy \<le> lvl) (rev tbl)"

definition addSymbol :: "CG \<Rightarrow> Symbol \<Rightarrow> CG" where
  "addSymbol s sy = s\<lparr>symbolTable := symbolTable s @ [sy]\<rparr>"

text \<open>
  \<^verbatim>\<open>getCurrentTokenFromIterator\<close> (\<^verbatim>\<open>token.h\<close>) by its description in the source: at the
  end of the tokens it returns a token with id \<open>nulsym\<close>. The lexeme of that token is
  taken as empty.
\<close>

definition getCurrentToken :: "CG \<Rightarrow> Token" where
  "getCurrentToken s =
     (if currentTokenInd s < length (it_tokenList s) then it_tokenList s ! currentTokenInd s
      else \<lparr>tok_id = nulsym, lexeme = []\<rparr>)"

definition getCurrentTokenType :: "CG \<Rightarrow> token_type" where
  "getCurrentTokenType s = tok_id (getCurrentToken s)"

definition nextToken :: "CG \<Rightarrow> CG" where
  "nextToken s = s\<lparr>currentTokenInd := currentTokenInd s + 1\<rparr>"

definition emit :: "int \<Rightarrow> int \<Rightarrow> int \<Rightarrow> int \<Rightarrow> CG \<Rightarrow> cg_stop + CG" where
  "emit OP R L M s =
     (if length (vmCode s) = MAX_CODE_LENGTH then Inl CodeFull
      else Inr (s\<lparr>vmCode := vmCode s @ [\<lparr>ins_op = OP, ins_r = R, ins_l = L, ins_m = M\<rparr>]\<rparr>))"

definition lookupCurrent :: "CG \<Rightarrow> Symbol option" where
  "lookupCurrent s = findSymbol (symbolTable s) (currentLevel s) (lexeme (getCurrentToken s))"

text \<open>
  \<^verbatim>\<open>findLevel\<close> ignores its argument and looks the current token's lexeme up again. The
  subtraction is unsigned, so the test for a negative difference never holds.
\<close>

definition findLevel :: "CG \<Rightarrow> int \<Rightarrow> cg_stop + int" where
  "findLevel s foundSymbol =
     (case lookupCurrent s of
        None \<Rightarrow> Inl NullSymbol
      | Some sy \<Rightarrow>
          if currentLevel s - level sy < 0 then Inr 0
          else Inr (sint (currentLevel s - level sy)))"

text \<open>
  The call \<^verbatim>\<open>emit(OP, currentReg, findLevel(findSymbol(..)->level), findSymbol(..)->address)\<close>
  that \<^verbatim>\<open>statement\<close> and \<^verbatim>\<open>factor\<close> make with the lexeme of the current token.
\<close>

definition emit_for_current :: "int \<Rightarrow> CG \<Rightarrow> cg_stop + CG" where
  "emit_for_current OP s =
     (case lookupCurrent s of
        None \<Rightarrow> Inl NullSymbol
      | Some sy \<Rightarrow>
          bnd (findLevel s (sint (level sy)))
            (\<lambda>lv. emit OP (currentReg s) lv (address sy) s))"

definition decReg :: "CG \<Rightarrow> CG" where
  "decReg s = s\<lparr>currentReg := currentReg s - 1\<rparr>"

definition incReg :: "CG \<Rightarrow> CG" where
  "incReg s = s\<lparr>currentReg := currentReg s + 1\<rparr>"

text \<open>\<^verbatim>\<open>vmCode[ref].m = nextCodeIndex\<close>, the fix-up of a jump emitted earlier.\<close>

definition patch_m :: "nat \<Rightarrow> CG \<Rightarrow> CG" where
  "patch_m ref s =
     s\<lparr>vmCode := (vmCode s)[ref := (vmCode s ! ref)\<lparr>ins_m := int (length (vmCode s))\<rparr>]\<rparr>"

subsection \<open>atoi\<close>

definition isspace :: "char \<Rightarrow> bool" where
  "isspace c = (let n = (of_char c :: nat) in n = 32 \<or> (9 \<le> n \<and> n \<le> 13))"

fun atoi_digits :: "int \<Rightarrow> string \<Rightarrow> int" where
  "atoi_digits acc [] = acc"
| "atoi_digits acc (c # cs) =
     (if isdigit c then atoi_digits (acc * 10 + (int (of_char c) - 48)) cs else acc)"

definition atoi :: "string \<Rightarrow> int" where
  "atoi str =
     (case dropWhile isspace str of
        [] \<Rightarrow> 0
      | c # cs \<Rightarrow>
          if c = CHR ''-'' then - atoi_digits 0 cs
          else if c = CHR ''+'' then atoi_digits 0 cs
          else atoi_digits 0 (c # cs))"

subsection \<open>Expressions\<close>

text \<open>
  The productions call each other, so each takes a recursion bound that every call
  lowers by one. The \<^verbatim>\<open>while\<close> loops of \<^verbatim>\<open>term\<close> and \<^verbatim>\<open>expression\<close> are the functions
  \<open>term_loop\<close> and \<open>expression_loop\<close>; they carry the flags the source keeps in locals.
\<close>

fun factor :: "nat \<Rightarrow> CG \<Rightarrow> cg_stop + CG"
  and term_prod :: "nat \<Rightarrow> CG \<Rightarrow> cg_stop + CG"
  and term_loop :: "nat \<Rightarrow> bool \<Rightarrow> bool \<Rightarrow> CG \<Rightarrow> cg_stop + CG"
  and expression :: "nat \<Rightarrow> CG \<Rightarrow> cg_stop + CG"
  and expression_loop :: "nat \<Rightarrow> bool \<Rightarrow> bool \<Rightarrow> CG \<Rightarrow> cg_stop + CG"
where
  "factor 0 s = Inl OutOfFuel"
| "factor (Suc n) s =
     (if getCurrentTokenType s = identsym then
        bnd (emit_for_current LOD s) (\<lambda>s1. Inr (nextToken (incReg s1)))
      else if getCurrentTokenType s = numbersym then
        bnd (emit LIT (currentReg s) 0 (atoi (lexeme (getCurrentToken s))) s)
          (\<lambda>s1. Inr (nextToken (incReg s1)))
      else if getCurrentTokenType s = lparentsym then
        bnd (expression n (nextToken s))
          (\<lambda>s1. if getCurrentTokenType s1 \<noteq> rparentsym then Inl (Err 13)
                else Inr (nextToken s1))
      else Inl (Err 14))"
| "term_prod 0 s = Inl OutOfFuel"
| "term_prod (Suc n) s = bnd (factor n s) (\<lambda>s1. term_loop n False False s1)"
| "term_loop 0 divide0 multiply0 s = Inl OutOfFuel"
| "term_loop (Suc n) divide0 multiply0 s =
     (if getCurrentTokenType s = multsym \<or> getCurrentTokenType s = slashsym then
        (let multiply1 = (if getCurrentTokenType s = multsym then True else multiply0);
             divide1 = (if getCurrentTokenType s = multsym then divide0
                        else if getCurrentTokenType s = slashsym then True else divide0)
         in bnd (factor n (nextToken s))
              (\<lambda>s1. if multiply1 then
                       bnd (emit MUL (currentReg s1 - 1) (currentReg s1 - 1) (currentReg s1) s1)
                         (\<lambda>s2. term_loop n divide1 False (decReg s2))
                     else if divide1 then
                       bnd (emit DIV (currentReg s1 - 1) (currentReg s1 - 1) (currentReg s1) s1)
                         (\<lambda>s2. term_loop n False multiply1 (decReg s2))
                     else term_loop n divide1 multiply1 s1))
      else Inr s)"
| "expression 0 s = Inl OutOfFuel"
| "expression (Suc n) s =
     (if getCurrentTokenType s = plussym \<or> getCurrentTokenType s = minussym then
        (let minus0 = (getCurrentTokenType s \<noteq> plussym \<and> getCurrentTokenType s = minussym)
         in bnd (term_prod n (nextToken s))
              (\<lambda>s1. if minus0 then
                       bnd (emit NEG (currentReg s1 - 1) (currentReg s1 - 1) (currentReg s1) s1)
                         (\<lambda>s2. expression_loop n False False (decReg s2))
                     else expression_loop n False minus0 s1))
      else bnd (term_prod n s) (\<lambda>s1. expression_loop n False False s1))"
| "expression_loop 0 plus0 minus0 s = Inl OutOfFuel"
| "expression_loop (Suc n) plus0 minus0 s =
     (if getCurrentTokenType s = plussym \<or> getCurrentTokenType s = minussym then
        (let plus1 = (if getCurrentTokenType s = plussym then True else plus0);
             minus1 = (if getCurrentTokenType s = plussym then minus0
                       else if getCurrentTokenType s = minussym then True else minus0)
         in bnd (term_prod n (nextToken s))
              (\<lambda>s1. if minus1 then
                       bnd (emit SUB (currentReg s1 - 1) (currentReg s1 - 1) (currentReg s1) s1)
                         (\<lambda>s2. expression_loop n plus1 False (decReg s2))
                     else if plus1 then
                       bnd (emit ADD (currentReg s1 - 1) (currentReg s1 - 1) (currentReg s1) s1)
                         (\<lambda>s2. expression_loop n False minus1 (decReg s2))
                     else expression_loop n plus1 minus1 s1))
      else Inr s)"

subsection \<open>Conditions\<close>

text \<open>
  The chain of relational operators in \<^verbatim>\<open>condition\<close>: each branch emits its comparison,
  lowers \<^verbatim>\<open>currentReg\<close> and only then consumes the operator token.
\<close>

definition relop_step :: "int \<Rightarrow> CG \<Rightarrow> cg_stop + CG" where
  "relop_step OP s =
     bnd (emit OP (currentReg s - 1) (currentReg s - 1) (currentReg s) s)
       (\<lambda>s1. Inr (nextToken (decReg s1)))"

definition condition_relop :: "CG \<Rightarrow> cg_stop + CG" where
  "condition_relop s =
     (if getCurrentTokenType s = eqsym then relop_step EQL s
      else if getCurrentTokenType s = neqsym then relop_step NEQ s
      else if getCurrentTokenType s = lessym then relop_step LSS s
      else if getCurrentTokenType s = leqsym then relop_step LEQ s
      else if getCurrentTokenType s = gtrsym then relop_step GTR s
      else if getCurrentTokenType s = geqsym then relop_step GEQ s
      else Inl (Err 12))"

definition condition :: "nat \<Rightarrow> CG \<Rightarrow> cg_stop + CG" where
  "condition n s =
     (if getCurrentTokenType s = oddsym then
        bnd (expression n (nextToken s))
          (\<lambda>s1. bnd (emit ODD (currentReg s1 - 1) (currentReg s1 - 1) (currentReg s1) s1)
                  (\<lambda>s2. Inr (decReg s2)))
      else
        bnd (expression n s)
          (\<lambda>s1. bnd (condition_relop s1) (\<lambda>s2. expression n s2)))"

subsection \<open>Statements\<close>

fun statement :: "nat \<Rightarrow> CG \<Rightarrow> cg_stop + CG"
  and statement_loop :: "nat \<Rightarrow> CG \<Rightarrow> cg_stop + CG"
where
  "statement 0 s = Inl OutOfFuel"
| "statement (Suc n) s =
     (if getCurrentTokenType s = identsym then
        (case lookupCurrent s of
           None \<Rightarrow> Inl NullSymbol
         | Some sy \<Rightarrow>
             if sym_type sy \<noteq> VAR_kind then Inl (Err 16)
             else
               (let s1 = nextToken s in
                if getCurrentTokenType s1 = becomessym then
                  bnd (expression n (nextToken s1))
                    (\<lambda>s2. bnd (emit_for_current STO s2) (\<lambda>s3. Inr (decReg s3)))
                else Inl (Err 7)))
      else if getCurrentTokenType s = callsym then
        (let s1 = nextToken s in
         if getCurrentTokenType s1 = identsym then
           (case lookupCurrent s1 of
              None \<Rightarrow> Inl NullSymbol
            | Some sy \<Rightarrow>
                if sym_type sy = PROC_kind then
                  bnd (emit CAL 0 (address sy) 4 s1) (\<lambda>s2. Inr (nextToken s2))
                else Inl (Err 7))
         else Inl (Err 8))
      else if getCurrentTokenType s = beginsym then
        bnd (statement n (nextToken s))
          (\<lambda>s1. bnd (statement_loop n s1)
                  (\<lambda>s2. if getCurrentTokenType s2 = endsym then Inr (nextToken s2)
                        else Inl (Err 10)))
      else if getCurrentTokenType s = ifsym then
        bnd (condition n (nextToken s))
          (\<lambda>s1. if getCurrentTokenType s1 = thensym then
                   (let s2 = nextToken s1; jpcRef = length (vmCode s2) in
                    bnd (emit JPC (currentReg s2) 0 0 s2)
                      (\<lambda>s3. bnd (statement n s3)
                              (\<lambda>s4. bnd (if getCurrentTokenType s4 = elsesym
                                          then statement n (nextToken s4) else Inr s4)
                                      (\<lambda>s5. Inr (patch_m jpcRef s5)))))
                 else Inl (Err 9))
      else if getCurrentTokenType s = whilesym then
        bnd (condition n (nextToken s))
          (\<lambda>s1. let jpcRef = length (vmCode s1) in
                 bnd (emit JPC (currentReg s1) 0 0 s1)
                   (\<lambda>s2. if getCurrentTokenType s2 = dosym then
                            bnd (statement n (nextToken s2)) (\<lambda>s3. Inr (patch_m jpcRef s3))
                          else Inl (Err 11)))
      else if getCurrentTokenType s = readsym then
        (let s1 = nextToken s in
         bnd (emit SIO_READ (currentReg s1) 0 2 s1)
           (\<lambda>s2. if getCurrentTokenType s2 = identsym then
                    bnd (emit_for_current STO s2) (\<lambda>s3. Inr (nextToken (decReg s3)))
                  else Inl (Err 3)))
      else if getCurrentTokenType s = writesym then
        (let s1 = nextToken s in
         if getCurrentTokenType s1 = identsym then
           bnd (emit SIO_WRITE (currentReg s1) 0 1 s1) (\<lambda>s2. Inr (nextToken s2))
         else Inl (Err 3))
      else Inr s)"
| "statement_loop 0 s = Inl OutOfFuel"
| "statement_loop (Suc n) s =
     (if getCurrentTokenType s = semicolonsym then
        bnd (statement n (nextToken s)) (\<lambda>s1. statement_loop n s1)
      else Inr s)"

subsection \<open>Declarations\<close>

text \<open>
  One constant, from its identifier on: \<^verbatim>\<open>ident = number\<close> and the \<^verbatim>\<open>addSymbol\<close>. The
  source writes this sequence twice, once for the first constant (a local \<^verbatim>\<open>Symbol\<close>) and
  once in the loop (a \<^verbatim>\<open>malloc\<close>ed one); both fill in the kind, the level, the name and
  the value, and nothing else.
\<close>

definition const_item :: "CG \<Rightarrow> cg_stop + CG" where
  "const_item s =
     (let sy0 = (uninit s (length (symbolTable s)))
                  \<lparr>sym_type := CONST_kind, level := currentLevel s\<rparr> in
      if getCurrentTokenType s = identsym then
        (let sy1 = sy0\<lparr>name := lexeme (getCurrentToken s)\<rparr>; s1 = nextToken s in
         if getCurrentTokenType s1 = eqsym then
           (let s2 = nextToken s1 in
            if getCurrentTokenType s2 = numbersym then
              (let sy2 = sy1\<lparr>sym_value := atoi (lexeme (getCurrentToken s2))\<rparr>;
                   s3 = nextToken s2
               in Inr (addSymbol s3 sy2))
            else Inl (Err 1))
         else Inl (Err 2))
      else Inl (Err 3))"

lemma const_item_progress:
  "const_item s = Inr s' \<Longrightarrow>
     it_tokenList s' = it_tokenList s \<and> currentTokenInd s' = currentTokenInd s + 3"
  by (auto simp: const_item_def Let_def nextToken_def addSymbol_def split: if_splits)

lemma comma_in_range:
  "getCurrentTokenType s = commasym \<Longrightarrow> currentTokenInd s < length (it_tokenList s)"
  by (auto simp: getCurrentTokenType_def getCurrentToken_def split: if_splits)

function const_loop :: "CG \<Rightarrow> cg_stop + CG" where
  "const_loop s =
     (if getCurrentTokenType s = commasym then
        (case const_item (nextToken s) of
           Inl e \<Rightarrow> Inl e
         | Inr s1 \<Rightarrow> const_loop s1)
      else Inr s)"
  by pat_completeness auto
termination
proof (relation "measure (\<lambda>s. length (it_tokenList s) - currentTokenInd s)", goal_cases)
  case 1
  show ?case by simp
next
  case (2 s s1)
  from const_item_progress [OF 2(2)] comma_in_range [OF 2(1)]
  show ?case by (simp add: nextToken_def)
qed

definition const_declaration :: "CG \<Rightarrow> cg_stop + CG" where
  "const_declaration s =
     (if getCurrentTokenType s = constsym then
        bnd (const_item (nextToken s))
          (\<lambda>s1. bnd (const_loop s1)
                  (\<lambda>s2. if getCurrentTokenType s2 = semicolonsym then Inr (nextToken s2)
                        else Inl (Err 4)))
      else Inr s)"

text \<open>
  One variable, from its identifier on: the name is stored, \<^verbatim>\<open>INC 0 0 2\<close> is emitted and
  the symbol is added. Only the kind, the level and the name are ever written.
\<close>

definition var_item :: "CG \<Rightarrow> cg_stop + CG" where
  "var_item s =
     (let sy0 = (uninit s (length (symbolTable s)))
                  \<lparr>sym_type := VAR_kind, level := currentLevel s\<rparr> in
      if getCurrentTokenType s = identsym then
        (let sy1 = sy0\<lparr>name := lexeme (getCurrentToken s)\<rparr>; s1 = nextToken s in
         bnd (emit INC 0 0 2 s1) (\<lambda>s2. Inr (addSymbol s2 sy1)))
      else Inl (Err 3))"

lemma var_item_progress:
  "var_item s = Inr s' \<Longrightarrow>
     it_tokenList s' = it_tokenList s \<and> currentTokenInd s' = currentTokenInd s + 1"
  by (auto simp: var_item_def Let_def nextToken_def addSymbol_def emit_def bnd_def
        split: if_splits)

function var_loop :: "CG \<Rightarrow> cg_stop + CG" where
  "var_loop s =
     (if getCurrentTokenType s = commasym then
        (case var_item (nextToken s) of
           Inl e \<Rightarrow> Inl e
         | Inr s1 \<Rightarrow> var_loop s1)
      else Inr s)"
  by pat_completeness auto
termination
proof (relation "measure (\<lambda>s. length (it_tokenList s) - currentTokenInd s)", goal_cases)
  case 1
  show ?case by simp
next
  case (2 s s1)
  from var_item_progress [OF 2(2)] comma_in_range [OF 2(1)]
  show ?case by (simp add: nextToken_def)
qed

definition var_declaration :: "CG \<Rightarrow> cg_stop + CG" where
  "var_declaration s =
     (if getCurrentTokenType s = varsym then
        bnd (var_item (nextToken s))
          (\<lambda>s1. bnd (var_loop s1)
                  (\<lambda>s2. if getCurrentTokenType s2 = semicolonsym then Inr (nextToken s2)
                        else Inl (Err 4)))
      else Inr s)"

declare const_loop.simps [simp del] var_loop.simps [simp del]

subsection \<open>Blocks, procedures, the program\<close>

text \<open>
  \<^verbatim>\<open>proc_declaration\<close> is a loop over \<^verbatim>\<open>procedure\<close> declarations, each with a nested
  \<^verbatim>\<open>block\<close>. It fills in the kind, the level and the name of the procedure symbol.
\<close>

fun block :: "nat \<Rightarrow> CG \<Rightarrow> cg_stop + CG"
  and proc_declaration :: "nat \<Rightarrow> CG \<Rightarrow> cg_stop + CG"
where
  "block 0 s = Inl OutOfFuel"
| "block (Suc n) s =
     bnd (const_declaration s)
       (\<lambda>s1. bnd (var_declaration s1)
               (\<lambda>s2. bnd (proc_declaration n s2) (\<lambda>s3. statement n s3)))"
| "proc_declaration 0 s = Inl OutOfFuel"
| "proc_declaration (Suc n) s =
     (if getCurrentTokenType s = procsym then
        (let s1 = (nextToken s)\<lparr>currentScope := Some (length (symbolTable s))\<rparr>;
             sy0 = (uninit s1 (length (symbolTable s1)))
                     \<lparr>sym_type := PROC_kind, level := currentLevel s1\<rparr>
         in
         if getCurrentTokenType s1 = identsym then
           (let sy1 = sy0\<lparr>name := lexeme (getCurrentToken s1)\<rparr>;
                s2 = addSymbol (nextToken s1) sy1
            in
            if getCurrentTokenType s2 = semicolonsym then
              (let s3 = nextToken s2;
                   s4 = s3\<lparr>currentLevel := currentLevel s3 + 1\<rparr>;
                   jumpRef = length (vmCode s4)
               in
               bnd (emit JMP 0 0 0 s4)
                 (\<lambda>s5. bnd (emit INC 0 0 4 s5)
                         (\<lambda>s6. bnd (block n s6)
                                 (\<lambda>s7. let s8 = s7\<lparr>currentLevel := currentLevel s7 - 1\<rparr>;
                                            s9 = patch_m jumpRef s8
                                        in
                                        if getCurrentTokenType s9 = semicolonsym
                                        then proc_declaration n (nextToken s9)
                                        else Inl (Err 5)))))
            else Inl (Err 5))
         else Inl (Err 3))
      else Inr s)"

definition program :: "nat \<Rightarrow> CG \<Rightarrow> cg_stop + CG" where
  "program n s =
     bnd (block n s)
       (\<lambda>s1. if getCurrentTokenType s1 = periodsym then emit SIO_HALT 0 0 3 (nextToken s1)
             else Inl (Err 6))"

text \<open>
  \<^verbatim>\<open>codeGenerator\<close> initialises the globals and runs \<^verbatim>\<open>program\<close>. Its return value 0 is
  the result \<open>Inr\<close>, which carries the final globals: \<open>vmCode\<close> is the code the source
  prints, \<open>currentReg\<close> the register counter at the end. A nonzero return value is
  \<open>Inl (Err n)\<close>.
\<close>

definition initCG :: "(nat \<Rightarrow> Symbol) \<Rightarrow> Token list \<Rightarrow> CG" where
  "initCG junk tokenList0 =
     \<lparr>it_tokenList = tokenList0, currentTokenInd = 0, currentLevel = 0, currentScope = None,
      symbolTable = [], vmCode = [], currentReg = 0, uninit = junk\<rparr>"

definition codeGenerator :: "nat \<Rightarrow> (nat \<Rightarrow> Symbol) \<Rightarrow> Token list \<Rightarrow> cg_stop + CG" where
  "codeGenerator n junk tokenList0 = program n (initCG junk tokenList0)"

text \<open>Tokens are written \<open>tok kind lexeme\<close>.\<close>

abbreviation tok :: "token_type \<Rightarrow> string \<Rightarrow> Token" where
  "tok t lx \<equiv> \<lparr>tok_id = t, lexeme = lx\<rparr>"

section \<open>The virtual machine (vm.c)\<close>

text \<open>
  Modelled from the spec: the \<^verbatim>\<open>VirtualMachine\<close> struct of \<^verbatim>\<open>vm.h\<close> (sixteen registers, the
  stack, \<open>BP\<close>, \<open>SP\<close>, \<open>PC\<close>, \<open>IR\<close>) and \<^verbatim>\<open>MAX_STACK_HEIGHT\<close> of \<^verbatim>\<open>data.h\<close>; neither file is
  part of the sources.

  Registers, stack cells, \<open>BP\<close>, \<open>SP\<close>, \<open>PC\<close> and the fields of an instruction are C
  \<^verbatim>\<open>int\<close>s of 32 bits. The model keeps them as integers and wraps the result of every
  addition, subtraction, multiplication and negation into the 32-bit range with \<open>w32\<close>
  (two's complement, as the compiled code computes; C itself leaves a signed overflow
  undefined). \<open>int32\<close> is the range.
\<close>

definition MAX_STACK_HEIGHT :: nat where
  "MAX_STACK_HEIGHT = 2000"

definition w32 :: "int \<Rightarrow> int" where
  "w32 x = (x + 2147483648) mod 4294967296 - 2147483648"

definition int32 :: "int \<Rightarrow> bool" where
  "int32 x = (- 2147483648 \<le> x \<and> x \<le> 2147483647)"

record VirtualMachine =
  RF :: "int list"
  stack :: "int list"
  BP :: int
  SP :: int
  PC :: int
  IR :: int

datatype vm_status = CONT | HALT

text \<open>
  Where the C source has no defined behaviour the model stops with the reason: a division
  or remainder by zero, the division of the least integer by -1, an index outside the
  register file, the stack, the code memory or the table of mnemonics, more instructions
  than the code memory holds. None of these is a check of the source: the source tests
  nothing, and these values mark the places where an access leaves its array.
  \<open>BoundReached\<close> is different: it is the model's bound on the number of steps, reached
  with the machine still going.
\<close>

datatype vm_stop =
    DivideByZero | DivideOverflow | RegisterIndex | StackIndex | FetchIndex | OpcodeIndex
  | CodeIndex | BoundReached

text \<open>
  The output file of \<^verbatim>\<open>simulateVM\<close> as data: a line of the code listing, a line of the
  execution trace with its dump of the stack, the final \<^verbatim>\<open>HLT\<close>. The fixed headers are
  left out.
\<close>

datatype dump_item = Cell int | Bar

datatype trace_line =
    CodeLine nat string int int int
  | ExecLine int string int int int int int int "dump_item list"
  | HLT_line

text \<open>
  The channels of the machine: the integers still to be read, the integers written, the
  messages on the standard error stream, and the output file of \<^verbatim>\<open>simulateVM\<close>.
\<close>

record vm_io =
  vmIn :: "int list"
  vmOut :: "int list"
  vmErr :: "string list"
  outp :: "trace_line list"

definition initVM :: VirtualMachine where
  "initVM = \<lparr>RF = replicate 16 0, stack = replicate MAX_STACK_HEIGHT 0,
            BP = 1, SP = 0, PC = 0, IR = 0\<rparr>"

definition rd_reg :: "VirtualMachine \<Rightarrow> int \<Rightarrow> vm_stop + int" where
  "rd_reg vm i =
     (if 0 \<le> i \<and> i < int (length (RF vm)) then Inr (RF vm ! nat i) else Inl RegisterIndex)"

definition wr_reg :: "VirtualMachine \<Rightarrow> int \<Rightarrow> int \<Rightarrow> vm_stop + VirtualMachine" where
  "wr_reg vm i v =
     (if 0 \<le> i \<and> i < int (length (RF vm)) then Inr (vm\<lparr>RF := (RF vm)[nat i := v]\<rparr>)
      else Inl RegisterIndex)"

definition rd_stack :: "int list \<Rightarrow> int \<Rightarrow> vm_stop + int" where
  "rd_stack stk i =
     (if 0 \<le> i \<and> i < int (length stk) then Inr (stk ! nat i) else Inl StackIndex)"

definition wr_stack :: "VirtualMachine \<Rightarrow> int \<Rightarrow> int \<Rightarrow> vm_stop + VirtualMachine" where
  "wr_stack vm i v =
     (if 0 \<le> i \<and> i < int (length (stack vm)) then Inr (vm\<lparr>stack := (stack vm)[nat i := v]\<rparr>)
      else Inl StackIndex)"

function getBasePointer :: "int list \<Rightarrow> int \<Rightarrow> int \<Rightarrow> vm_stop + int" where
  "getBasePointer stk currentBP L =
     (if L > 0 then
        (case rd_stack stk (w32 (currentBP + 1)) of
           Inl u \<Rightarrow> Inl u
         | Inr b1 \<Rightarrow> getBasePointer stk b1 (L - 1))
      else Inr currentBP)"
  by pat_completeness auto
termination
  by (relation "measure (\<lambda>(stk, b, L). nat L)") auto

declare getBasePointer.simps [simp del]

text \<open>C's division and remainder on integers: the quotient is truncated towards zero.\<close>

definition c_div :: "int \<Rightarrow> int \<Rightarrow> int" where
  "c_div a b = sgn a * sgn b * (\<bar>a\<bar> div \<bar>b\<bar>)"

definition c_mod :: "int \<Rightarrow> int \<Rightarrow> int" where
  "c_mod a b = a - b * c_div a b"

definition c_bool :: "bool \<Rightarrow> int" where
  "c_bool b = (if b then 1 else 0)"

text \<open>
  An instruction of the shape \<^verbatim>\<open>RF[r] = f(RF[l], RF[m])\<close>, and the two that divide. The
  source divides without looking at the operands.
\<close>

definition binop ::
  "(int \<Rightarrow> int \<Rightarrow> int) \<Rightarrow> VirtualMachine \<Rightarrow> Instruction \<Rightarrow> vm_stop + VirtualMachine" where
  "binop f vm ins =
     bnd (rd_reg vm (ins_l ins))
       (\<lambda>a. bnd (rd_reg vm (ins_m ins)) (\<lambda>b. wr_reg vm (ins_r ins) (f a b)))"

definition divop ::
  "(int \<Rightarrow> int \<Rightarrow> int) \<Rightarrow> VirtualMachine \<Rightarrow> Instruction \<Rightarrow> vm_stop + VirtualMachine" where
  "divop f vm ins =
     bnd (rd_reg vm (ins_l ins))
       (\<lambda>a. bnd (rd_reg vm (ins_m ins))
              (\<lambda>b. if b = 0 then Inl DivideByZero
                    else if a = - 2147483648 \<and> b = - 1 then Inl DivideOverflow
                    else wr_reg vm (ins_r ins) (f a b)))"

definition cont ::
  "vm_io \<Rightarrow> vm_stop + VirtualMachine \<Rightarrow> vm_stop + (vm_status \<times> VirtualMachine \<times> vm_io)"
  where
  "cont io x = bnd x (\<lambda>vm. Inr (CONT, vm, io))"

text \<open>
  \<^verbatim>\<open>executeInstruction\<close>: the \<^verbatim>\<open>switch\<close> over the opcode, case by case. The \<^verbatim>\<open>default\<close>
  case writes its message on the standard error stream and returns \<open>HALT\<close>.
\<close>

definition executeInstruction ::
  "VirtualMachine \<Rightarrow> Instruction \<Rightarrow> vm_io \<Rightarrow> vm_stop + (vm_status \<times> VirtualMachine \<times> vm_io)"
  where
  "executeInstruction vm ins io =
     (let op = ins_op ins; r = ins_r ins; l = ins_l ins; m = ins_m ins in
      if op = 1 then cont io (wr_reg vm r m)
      else if op = 2 then
        (let vm1 = vm\<lparr>SP := w32 (BP vm - 1)\<rparr> in
         cont io
           (bnd (rd_stack (stack vm1) (w32 (SP vm1 + 3)))
              (\<lambda>b. let vm2 = vm1\<lparr>BP := b\<rparr> in
                    bnd (rd_stack (stack vm2) (w32 (SP vm2 + 4))) (\<lambda>p. Inr (vm2\<lparr>PC := p\<rparr>)))))
      else if op = 3 then
        cont io
          (bnd (getBasePointer (stack vm) (BP vm) l)
             (\<lambda>b. bnd (rd_stack (stack vm) (w32 (b + m))) (\<lambda>v. wr_reg vm r v)))
      else if op = 4 then
        cont io
          (bnd (getBasePointer (stack vm) (BP vm) l)
             (\<lambda>b. bnd (rd_reg vm r) (\<lambda>v. wr_stack vm (w32 (b + m)) v)))
      else if op = 5 then
        cont io
          (bnd (wr_stack vm (w32 (SP vm + 1)) 0)
             (\<lambda>vm1. bnd (getBasePointer (stack vm1) (BP vm1) l)
                (\<lambda>b. bnd (wr_stack vm1 (w32 (SP vm1 + 2)) b)
                   (\<lambda>vm2. bnd (wr_stack vm2 (w32 (SP vm2 + 3)) (BP vm2))
                      (\<lambda>vm3. bnd (wr_stack vm3 (w32 (SP vm3 + 4)) (PC vm3))
                         (\<lambda>vm4. Inr (vm4\<lparr>BP := w32 (SP vm4 + 1), PC := m\<rparr>)))))))
      else if op = 6 then Inr (CONT, vm\<lparr>SP := w32 (SP vm + m)\<rparr>, io)
      else if op = 7 then Inr (CONT, vm\<lparr>PC := m\<rparr>, io)
      else if op = 8 then
        cont io (bnd (rd_reg vm r) (\<lambda>v. if v = 0 then Inr (vm\<lparr>PC := m\<rparr>) else Inr vm))
      else if op = 9 then
        bnd (rd_reg vm r) (\<lambda>v. Inr (CONT, vm, io\<lparr>vmOut := vmOut io @ [v]\<rparr>))
      else if op = 10 then
        (case vmIn io of
           [] \<Rightarrow> bnd (rd_reg vm r) (\<lambda>v. Inr (CONT, vm, io))
         | x # xs \<Rightarrow> bnd (wr_reg vm r x) (\<lambda>vm1. Inr (CONT, vm1, io\<lparr>vmIn := xs\<rparr>)))
      else if op = 11 then Inr (HALT, vm, io)
      else if op = 12 then cont io (bnd (rd_reg vm l) (\<lambda>a. wr_reg vm r (w32 (0 - a))))
      else if op = 13 then cont io (binop (\<lambda>a b. w32 (a + b)) vm ins)
      else if op = 14 then cont io (binop (\<lambda>a b. w32 (a - b)) vm ins)
      else if op = 15 then cont io (binop (\<lambda>a b. w32 (a * b)) vm ins)
      else if op = 16 then cont io (divop c_div vm ins)
      else if op = 17 then cont io (bnd (rd_reg vm r) (\<lambda>a. wr_reg vm r (c_mod a 2)))
      else if op = 18 then cont io (divop c_mod vm ins)
      else if op = 19 then cont io (binop (\<lambda>a b. c_bool (a = b)) vm ins)
      else if op = 20 then cont io (binop (\<lambda>a b. c_bool (a \<noteq> b)) vm ins)
      else if op = 21 then cont io (binop (\<lambda>a b. c_bool (a < b)) vm ins)
      else if op = 22 then cont io (binop (\<lambda>a b. c_bool (a \<le> b)) vm ins)
      else if op = 23 then cont io (binop (\<lambda>a b. c_bool (a > b)) vm ins)
      else if op = 24 then cont io (binop (\<lambda>a b. c_bool (a \<ge> b)) vm ins)
      else Inr (HALT, vm, io\<lparr>vmErr := vmErr io @ [''Illegal instruction?'']\<rparr>))"

text \<open>
  A machine, an instruction whose values all lie in the 32-bit range.
\<close>

definition vm_int32 :: "VirtualMachine \<Rightarrow> bool" where
  "vm_int32 vm =
     (list_all int32 (RF vm) \<and> list_all int32 (stack vm) \<and> int32 (BP vm) \<and> int32 (SP vm) \<and>
      int32 (PC vm))"

definition ins_int32 :: "Instruction \<Rightarrow> bool" where
  "ins_int32 ins =
     (int32 (ins_op ins) \<and> int32 (ins_r ins) \<and> int32 (ins_l ins) \<and> int32 (ins_m ins))"

subsection \<open>The listing and the trace\<close>

text \<open>
  The table \<^verbatim>\<open>opcodes\<close> of 25 mnemonics. The listing and the trace index it with the
  opcode of an instruction, unchecked.
\<close>

definition opcodes :: "string list" where
  "opcodes =
     [''illegal'', ''lit'', ''rtn'', ''lod'', ''sto'', ''cal'', ''inc'', ''jmp'', ''jpc'',
      ''sio'', ''sio'', ''sio'', ''neg'', ''add'', ''sub'', ''mul'', ''div'', ''odd'',
      ''mod'', ''eql'', ''neq'', ''lss'', ''leq'', ''gtr'', ''geq'']"

definition opcode_name :: "int \<Rightarrow> vm_stop + string" where
  "opcode_name op =
     (if 0 \<le> op \<and> op < int (length opcodes) then Inr (opcodes ! nat op) else Inl OpcodeIndex)"

text \<open>\<^verbatim>\<open>dumpInstructions\<close>: one line for each loaded instruction, from index \<open>i\<close> on.\<close>

fun dumpInstructions :: "nat \<Rightarrow> Instruction list \<Rightarrow> vm_stop + trace_line list" where
  "dumpInstructions i [] = Inr []"
| "dumpInstructions i (x # xs) =
     bnd (opcode_name (ins_op x))
       (\<lambda>nm. bnd (dumpInstructions (Suc i) xs)
               (\<lambda>ls. Inr (CodeLine i nm (ins_r x) (ins_l x) (ins_m x) # ls)))"

text \<open>
  \<^verbatim>\<open>dumpStack\<close> prints the frames below the current one first, following the dynamic link
  \<^verbatim>\<open>stack[bp + 2]\<close>, then the cells \<open>bp .. sp\<close> of the current frame. The recursion need not
  end, so it takes a bound.
\<close>

definition read_cells :: "int list \<Rightarrow> int \<Rightarrow> int \<Rightarrow> vm_stop + int list" where
  "read_cells stk bp sp =
     (if 0 \<le> bp \<and> sp < int (length stk) then Inr (map (\<lambda>i. stk ! nat i) [bp..sp])
      else Inl StackIndex)"

fun dumpStack :: "nat \<Rightarrow> int list \<Rightarrow> int \<Rightarrow> int \<Rightarrow> vm_stop + dump_item list" where
  "dumpStack 0 stk sp bp = Inl BoundReached"
| "dumpStack (Suc n) stk sp bp =
     (if bp = 0 then Inr []
      else
        bnd (if bp = 1 then Inr [Cell 0]
             else bnd (rd_stack stk (w32 (bp + 2)))
                    (\<lambda>dl. dumpStack n stk (w32 (bp - 1)) dl))
          (\<lambda>below. if bp \<le> sp
                    then bnd (read_cells stk bp sp) (\<lambda>cs. Inr (below @ Bar # map Cell cs))
                    else Inr below))"

subsection \<open>simulateVM\<close>

text \<open>
  The code memory \<^verbatim>\<open>ins_array\<close> has \<^verbatim>\<open>MAX_CODE_LENGTH\<close> cells. \<^verbatim>\<open>readInstructions\<close> fills
  the first cells with the instructions \<open>code\<close> of the input file; the other cells are
  never initialised, and \<open>junk k\<close> is the indeterminate content of cell \<open>k\<close>. The fetch
  reads \<^verbatim>\<open>ins_array[PC]\<close> unchecked: inside the array it gets the loaded instruction or the
  content of an uninitialised cell, outside the array the read leaves the array.
\<close>

definition fetch :: "Instruction list \<Rightarrow> (nat \<Rightarrow> Instruction) \<Rightarrow> int \<Rightarrow> vm_stop + Instruction" where
  "fetch code junk pc =
     (if 0 \<le> pc \<and> pc < int MAX_CODE_LENGTH then
        (if nat pc < length code then Inr (code ! nat pc) else Inr (junk (nat pc)))
      else Inl FetchIndex)"

text \<open>
  The fetch-execute loop of \<^verbatim>\<open>simulateVM\<close>: fetch, advance \<open>PC\<close>, execute, write the line
  of the trace with the dump of the stack, and go on while the status is \<open>CONT\<close>. A
  program need not halt, so the loop takes a bound \<open>n\<close> on the number of instructions;
  \<open>d\<close> is the bound of each dump of the stack.
\<close>

fun run_loop ::
  "nat \<Rightarrow> nat \<Rightarrow> Instruction list \<Rightarrow> (nat \<Rightarrow> Instruction) \<Rightarrow> VirtualMachine \<Rightarrow> vm_io \<Rightarrow>
     vm_stop + (VirtualMachine \<times> vm_io)" where
  "run_loop d 0 code junk vm io = Inl BoundReached"
| "run_loop d (Suc n) code junk vm io =
     bnd (fetch code junk (PC vm))
       (\<lambda>ins.
          let instrBeingExecuted = PC vm; vm1 = vm\<lparr>PC := w32 (PC vm + 1)\<rparr> in
          bnd (executeInstruction vm1 ins io)
            (\<lambda>(status, vm2, io2).
               bnd (opcode_name (ins_op ins))
                 (\<lambda>nm. bnd (dumpStack d (stack vm2) (SP vm2) (BP vm2))
                    (\<lambda>dmp. let io3 = io2\<lparr>outp := outp io2 @
                                  [ExecLine instrBeingExecuted nm (ins_r ins) (ins_l ins)
                                     (ins_m ins) (PC vm2) (BP vm2) (SP vm2) dmp]\<rparr>
                            in if status = CONT then run_loop d n code junk vm2 io3
                               else Inr (vm2, io3\<lparr>outp := outp io3 @ [HLT_line]\<rparr>)))))"

text \<open>
  \<^verbatim>\<open>simulateVM\<close>: read the instructions, write the listing, run the loop from the initial
  machine. The input file is taken as the list \<open>code\<close> of its instructions;
  \<^verbatim>\<open>readInstructions\<close> stores them without a test of the index, so more than
  \<^verbatim>\<open>MAX_CODE_LENGTH\<close> of them leave the array. The result \<open>Inr\<close> is the machine and the
  channels after the final \<^verbatim>\<open>HLT\<close>.
\<close>

definition simulateVM ::
  "nat \<Rightarrow> nat \<Rightarrow> Instruction list \<Rightarrow> (nat \<Rightarrow> Instruction) \<Rightarrow> vm_io \<Rightarrow>
     vm_stop + (VirtualMachine \<times> vm_io)" where
  "simulateVM d n code junk io =
     (if MAX_CODE_LENGTH < length code then Inl CodeIndex
      else bnd (dumpInstructions 0 code)
             (\<lambda>ls. run_loop d n code junk initVM (io\<lparr>outp := outp io @ ls\<rparr>)))"

section \<open>Lexer: the NULL source\<close>

text \<open>
  C10. Called with a NULL source pointer, \<^verbatim>\<open>lexicalAnalyzer\<close> returns a result whose
  error is \<open>NO_SOURCE_CODE\<close> and whose error line is -1; no source character is read (no
  fault can arise) and no token list is produced.
\<close>

theorem lexicalAnalyzer_null_source:
  "lexicalAnalyzer None =
     Inr \<lparr>out_lexerError = NO_SOURCE_CODE, errorLine = - 1, out_tokenList = None\<rparr>"
  by (simp add: lexicalAnalyzer_def)

section \<open>Lexer: a colon without an equals sign\<close>

text \<open>
  C8. The claim wants an invalid-symbol error for a \<open>:\<close> that no \<open>=\<close> follows. On the
  source \<open>x : y\<close> the lexer reports no error and returns the two identifier tokens: the
  colon is skipped silently.
\<close>

theorem lone_colon_skipped:
  "lexicalAnalyzer (Some ''x : y'') =
     Inr \<lparr>out_lexerError = NONE, errorLine = - 1,
          out_tokenList = Some [\<lparr>tok_id = identsym, lexeme = ''x''\<rparr>,
                                \<lparr>tok_id = identsym, lexeme = ''y''\<rparr>]\<rparr>"
  by code_simp

section \<open>Lexer: a comment that is never closed\<close>

text \<open>
  C7. The claim wants a lexical error when the source ends inside a comment. On the
  source \<open>/*\<close> the comment scanner steps over the terminator and reads past the end of
  the string; no lexical error is reported.
\<close>

theorem open_comment_reads_past_end:
  "lexicalAnalyzer (Some ''/*'') = Inl ReadPastEnd"
  by code_simp

section \<open>Lexer: lexeme length bounds\<close>

text \<open>
  The loops of \<^verbatim>\<open>DFA_Alpha\<close> and \<^verbatim>\<open>DFA_Digit\<close> on a run \<open>w\<close> of letters and digits
  that stands after any prefix \<open>pre\<close> of the source: as long as the buffer has room they
  consume the run character by character.
\<close>

lemma src_at_append_here:
  "src_at (pre @ c # rest) (length pre) = Some c"
  by (simp add: src_at_def)

lemma src_at_append_end:
  "src_at (pre @ rest) (length pre) = Some (if rest = [] then NUL else hd rest)"
  by (cases rest) (simp_all add: src_at_def)

lemma NUL_not_alnum: "\<not> isalpha NUL" "\<not> isdigit NUL"
  by (simp_all add: isalpha_def isdigit_def NUL_def)

lemma isdigit_not_isalpha: "isdigit c \<Longrightarrow> \<not> isalpha c"
  by (auto simp: isalpha_def isdigit_def Let_def)

lemma DFA_Alpha_loop_steps:
  assumes "sourceCode st = pre @ w @ rest" and "charInd st = length pre"
    and "\<forall>c\<in>set w. isalpha c \<or> isdigit c"
    and "i - 1 + length w \<le> Suc MAX_LEXEME_LENGTH"
  shows "DFA_Alpha_loop i lx st =
           DFA_Alpha_loop (i + length w) (lx @ w) (st\<lparr>charInd := charInd st + length w\<rparr>)"
  using assms
proof (induction w arbitrary: pre i lx st)
  case Nil
  show ?case by simp
next
  case (Cons c w)
  let ?st1 = "st\<lparr>charInd := charInd st + 1\<rparr>"
  have rd: "src_at (sourceCode st) (charInd st) = Some c"
    using Cons.prems(1,2) by (simp add: src_at_append_here)
  have alnum: "isalpha c \<or> isdigit c" using Cons.prems(3) by simp
  have small: "\<not> i - 1 > MAX_LEXEME_LENGTH" using Cons.prems(4) by simp
  have "DFA_Alpha_loop (i + 1) (lx @ [c]) ?st1 =
          DFA_Alpha_loop ((i + 1) + length w) ((lx @ [c]) @ w)
            (?st1\<lparr>charInd := charInd ?st1 + length w\<rparr>)"
  proof (rule Cons.IH [where pre = "pre @ [c]"])
    show "sourceCode ?st1 = (pre @ [c]) @ w @ rest" using Cons.prems(1) by simp
    show "charInd ?st1 = length (pre @ [c])" using Cons.prems(2) by simp
    show "\<forall>c\<in>set w. isalpha c \<or> isdigit c" using Cons.prems(3) by simp
    show "i + 1 - 1 + length w \<le> Suc MAX_LEXEME_LENGTH" using Cons.prems(4) by simp
  qed
  then show ?case
    using rd alnum small by (subst DFA_Alpha_loop.simps) (simp add: Let_def)
qed

lemma DFA_Digit_loop_steps:
  assumes "sourceCode st = pre @ w @ rest" and "charInd st = length pre"
    and "\<forall>c\<in>set w. isdigit c"
    and "i - 1 + length w \<le> Suc MAX_LEXEME_LENGTH"
  shows "DFA_Digit_loop i False lx st =
           DFA_Digit_loop (i + length w) False (lx @ w) (st\<lparr>charInd := charInd st + length w\<rparr>)"
  using assms
proof (induction w arbitrary: pre i lx st)
  case Nil
  show ?case by simp
next
  case (Cons c w)
  let ?st1 = "st\<lparr>charInd := charInd st + 1\<rparr>"
  have rd: "src_at (sourceCode st) (charInd st) = Some c"
    using Cons.prems(1,2) by (simp add: src_at_append_here)
  have dig: "isdigit c" "\<not> isalpha c" using Cons.prems(3) isdigit_not_isalpha by simp_all
  have small: "\<not> i - 1 > MAX_LEXEME_LENGTH" using Cons.prems(4) by simp
  have "DFA_Digit_loop (i + 1) False (lx @ [c]) ?st1 =
          DFA_Digit_loop ((i + 1) + length w) False ((lx @ [c]) @ w)
            (?st1\<lparr>charInd := charInd ?st1 + length w\<rparr>)"
  proof (rule Cons.IH [where pre = "pre @ [c]"])
    show "sourceCode ?st1 = (pre @ [c]) @ w @ rest" using Cons.prems(1) by simp
    show "charInd ?st1 = length (pre @ [c])" using Cons.prems(2) by simp
    show "\<forall>c\<in>set w. isdigit c" using Cons.prems(3) by simp
    show "i + 1 - 1 + length w \<le> Suc MAX_LEXEME_LENGTH" using Cons.prems(4) by simp
  qed
  then show ?case
    using rd dig small by (subst DFA_Digit_loop.simps) (simp add: Let_def)
qed

text \<open>The loops stop at a character that is neither a letter nor a digit.\<close>

lemma DFA_Alpha_loop_stop:
  assumes "sourceCode st = pre @ rest" and "charInd st = length pre"
    and "rest = [] \<or> \<not> (isalpha (hd rest) \<or> isdigit (hd rest))"
  shows "DFA_Alpha_loop i lx st = Inr (False, i, lx, st)"
  using assms by (subst DFA_Alpha_loop.simps) (auto simp: src_at_append_end NUL_not_alnum)

lemma DFA_Digit_loop_stop:
  assumes "sourceCode st = pre @ rest" and "charInd st = length pre"
    and "rest = [] \<or> \<not> (isalpha (hd rest) \<or> isdigit (hd rest))"
  shows "DFA_Digit_loop i y lx st = Inr (False, i, lx, st)"
  using assms by (subst DFA_Digit_loop.simps) (auto simp: src_at_append_end NUL_not_alnum)

lemma DFA_Alpha_loop_run:
  assumes "sourceCode st = pre @ w @ rest" and "charInd st = length pre"
    and "\<forall>c\<in>set w. isalpha c \<or> isdigit c"
    and "rest = [] \<or> \<not> (isalpha (hd rest) \<or> isdigit (hd rest))"
    and "length w \<le> Suc MAX_LEXEME_LENGTH"
  shows "DFA_Alpha_loop 1 [] st =
           Inr (False, 1 + length w, w, st\<lparr>charInd := charInd st + length w\<rparr>)"
proof -
  have "DFA_Alpha_loop 1 [] st =
      DFA_Alpha_loop (1 + length w) ([] @ w) (st\<lparr>charInd := charInd st + length w\<rparr>)"
    by (rule DFA_Alpha_loop_steps [OF assms(1,2,3)]) (use assms(5) in simp)
  also have "\<dots> = Inr (False, 1 + length w, [] @ w, st\<lparr>charInd := charInd st + length w\<rparr>)"
    by (rule DFA_Alpha_loop_stop [where pre = "pre @ w" and rest = rest])
       (use assms in simp_all)
  finally show ?thesis by simp
qed

lemma DFA_Digit_loop_run:
  assumes "sourceCode st = pre @ w @ rest" and "charInd st = length pre"
    and "\<forall>c\<in>set w. isdigit c"
    and "rest = [] \<or> \<not> (isalpha (hd rest) \<or> isdigit (hd rest))"
    and "length w \<le> Suc MAX_LEXEME_LENGTH"
  shows "DFA_Digit_loop 1 False [] st =
           Inr (False, 1 + length w, w, st\<lparr>charInd := charInd st + length w\<rparr>)"
proof -
  have "DFA_Digit_loop 1 False [] st =
      DFA_Digit_loop (1 + length w) False ([] @ w) (st\<lparr>charInd := charInd st + length w\<rparr>)"
    by (rule DFA_Digit_loop_steps [OF assms(1,2,3)]) (use assms(5) in simp)
  also have "\<dots> = Inr (False, 1 + length w, [] @ w, st\<lparr>charInd := charInd st + length w\<rparr>)"
    by (rule DFA_Digit_loop_stop [where pre = "pre @ w" and rest = rest])
       (use assms in simp_all)
  finally show ?thesis by simp
qed

text \<open>
  \<^verbatim>\<open>DFA_Alpha\<close> on a run \<open>w\<close> of letters and digits that stands anywhere in the source and
  ends at a character of another kind or at the end of the source: up to 11 characters
  give one token; exactly 12 characters overflow the buffer.
\<close>

lemma DFA_Alpha_at_name:
  assumes "sourceCode st = pre @ w @ rest" and "charInd st = length pre"
    and "\<forall>c\<in>set w. isalpha c \<or> isdigit c"
    and "rest = [] \<or> \<not> (isalpha (hd rest) \<or> isdigit (hd rest))"
  shows "length w \<le> 11 \<Longrightarrow>
           DFA_Alpha st =
             Inr (addToken (st\<lparr>charInd := charInd st + length w\<rparr>)
                   \<lparr>tok_id = (case checkReservedTokens w of Some t \<Rightarrow> t | None \<Rightarrow> identsym),
                    lexeme = w\<rparr>)"
    and "length w = 12 \<Longrightarrow> DFA_Alpha st = Inl LexemeOverflow"
proof -
  assume "length w \<le> 11"
  then have "length w \<le> Suc MAX_LEXEME_LENGTH" by (simp add: MAX_LEXEME_LENGTH_def)
  from DFA_Alpha_loop_run [OF assms this] \<open>length w \<le> 11\<close>
  show "DFA_Alpha st =
      Inr (addToken (st\<lparr>charInd := charInd st + length w\<rparr>)
            \<lparr>tok_id = (case checkReservedTokens w of Some t \<Rightarrow> t | None \<Rightarrow> identsym),
             lexeme = w\<rparr>)"
    by (simp add: DFA_Alpha_def MAX_LEXEME_LENGTH_def split: option.splits)
next
  assume "length w = 12"
  then have "length w \<le> Suc MAX_LEXEME_LENGTH" by (simp add: MAX_LEXEME_LENGTH_def)
  from DFA_Alpha_loop_run [OF assms this] \<open>length w = 12\<close>
  show "DFA_Alpha st = Inl LexemeOverflow"
    by (simp add: DFA_Alpha_def MAX_LEXEME_LENGTH_def)
qed

text \<open>
  \<^verbatim>\<open>DFA_Alpha\<close> on a name of 13 or more characters: the thirteenth character is the first
  that the test inside the loop turns away, and that test sets \<open>NAME_TOO_LONG\<close>.
\<close>

lemma DFA_Alpha_at_long_name:
  assumes "sourceCode st = pre @ w @ c # rest" and "charInd st = length pre"
    and "\<forall>c\<in>set w. isalpha c \<or> isdigit c" and "isalpha c \<or> isdigit c"
    and "length w = 12"
  shows "DFA_Alpha st = Inr (st\<lparr>charInd := charInd st + 13, lexerError := NAME_TOO_LONG\<rparr>)"
proof -
  let ?st12 = "st\<lparr>charInd := charInd st + length w\<rparr>"
  have "DFA_Alpha_loop 1 [] st = DFA_Alpha_loop (1 + length w) ([] @ w) ?st12"
    by (rule DFA_Alpha_loop_steps [OF assms(1,2,3)])
       (use assms(5) in \<open>simp add: MAX_LEXEME_LENGTH_def\<close>)
  moreover have "src_at (sourceCode ?st12) (charInd ?st12) = Some c"
    using assms(1,2) src_at_append_here [of "pre @ w" c rest] by simp
  ultimately have "DFA_Alpha_loop 1 [] st =
      Inr (True, 13, w, ?st12\<lparr>charInd := charInd ?st12 + 1, lexerError := NAME_TOO_LONG\<rparr>)"
    using assms(4,5)
    by (subst (asm) (2) DFA_Alpha_loop.simps) (simp add: Let_def MAX_LEXEME_LENGTH_def)
  then show ?thesis using assms(5) by (simp add: DFA_Alpha_def)
qed

text \<open>
  \<^verbatim>\<open>DFA_Digit\<close> on a run \<open>w\<close> of digits that stands anywhere in the source and ends at a
  character that is neither a letter nor a digit: up to 5 digits give one number token, 6
  to 11 digits set \<open>NUM_TOO_LONG\<close>, exactly 12 digits overflow the buffer.
\<close>

lemma DFA_Digit_at_number:
  assumes "sourceCode st = pre @ w @ rest" and "charInd st = length pre"
    and "\<forall>c\<in>set w. isdigit c"
    and "rest = [] \<or> \<not> (isalpha (hd rest) \<or> isdigit (hd rest))"
  shows "length w \<le> 5 \<Longrightarrow>
           DFA_Digit st =
             Inr (addToken (st\<lparr>charInd := charInd st + length w\<rparr>)
                   \<lparr>tok_id = numbersym, lexeme = w\<rparr>)"
    and "5 < length w \<Longrightarrow> length w \<le> 11 \<Longrightarrow>
           DFA_Digit st =
             Inr (st\<lparr>charInd := charInd st + length w, lexerError := NUM_TOO_LONG\<rparr>)"
    and "length w = 12 \<Longrightarrow> DFA_Digit st = Inl LexemeOverflow"
proof -
  assume "length w \<le> 5"
  then have "length w \<le> Suc MAX_LEXEME_LENGTH" by (simp add: MAX_LEXEME_LENGTH_def)
  from DFA_Digit_loop_run [OF assms this] \<open>length w \<le> 5\<close>
  show "DFA_Digit st =
      Inr (addToken (st\<lparr>charInd := charInd st + length w\<rparr>) \<lparr>tok_id = numbersym, lexeme = w\<rparr>)"
    by (simp add: DFA_Digit_def MAX_LEXEME_LENGTH_def)
next
  assume "5 < length w" "length w \<le> 11"
  then have "length w \<le> Suc MAX_LEXEME_LENGTH" by (simp add: MAX_LEXEME_LENGTH_def)
  from DFA_Digit_loop_run [OF assms this] \<open>5 < length w\<close> \<open>length w \<le> 11\<close>
  show "DFA_Digit st = Inr (st\<lparr>charInd := charInd st + length w, lexerError := NUM_TOO_LONG\<rparr>)"
    by (simp add: DFA_Digit_def MAX_LEXEME_LENGTH_def)
next
  assume "length w = 12"
  then have "length w \<le> Suc MAX_LEXEME_LENGTH" by (simp add: MAX_LEXEME_LENGTH_def)
  from DFA_Digit_loop_run [OF assms this] \<open>length w = 12\<close>
  show "DFA_Digit st = Inl LexemeOverflow"
    by (simp add: DFA_Digit_def MAX_LEXEME_LENGTH_def)
qed

text \<open>
  C9. The claim wants a name of 12 characters rejected with \<open>NAME_TOO_LONG\<close>. On a name
  of exactly 12 characters the loop fills all 12 cells of the buffer, and the terminator
  is then stored at index 12, outside the buffer, before the length is tested: the lexer
  does not reach the test that would set \<open>NAME_TOO_LONG\<close>. A name of 13 characters is
  rejected with \<open>NAME_TOO_LONG\<close> inside the loop. The other three parts of the claim hold:
  a name of 11 characters and a number of 5 digits are accepted, a number of 6 digits is
  rejected with \<open>NUM_TOO_LONG\<close>.
\<close>

theorem twelve_character_name_overflows:
  "lexicalAnalyzer (Some ''var abcdefghijkl;'') = Inl LexemeOverflow \<and>
   lexicalAnalyzer (Some ''abcdefghijkl'') = Inl LexemeOverflow \<and>
   lexicalAnalyzer (Some ''var abcdefghijklm;'') =
     Inr \<lparr>out_lexerError = NAME_TOO_LONG, errorLine = 0,
          out_tokenList = Some [\<lparr>tok_id = varsym, lexeme = ''var''\<rparr>]\<rparr> \<and>
   lexicalAnalyzer (Some ''var abcdefghijk;'') =
     Inr \<lparr>out_lexerError = NONE, errorLine = - 1,
          out_tokenList = Some [\<lparr>tok_id = varsym, lexeme = ''var''\<rparr>,
                                \<lparr>tok_id = identsym, lexeme = ''abcdefghijk''\<rparr>,
                                \<lparr>tok_id = semicolonsym, lexeme = '';''\<rparr>]\<rparr> \<and>
   lexicalAnalyzer (Some ''x := 12345;'') =
     Inr \<lparr>out_lexerError = NONE, errorLine = - 1,
          out_tokenList = Some [\<lparr>tok_id = identsym, lexeme = ''x''\<rparr>,
                                \<lparr>tok_id = becomessym, lexeme = '':=''\<rparr>,
                                \<lparr>tok_id = numbersym, lexeme = ''12345''\<rparr>,
                                \<lparr>tok_id = semicolonsym, lexeme = '';''\<rparr>]\<rparr> \<and>
   lexicalAnalyzer (Some ''x := 123456;'') =
     Inr \<lparr>out_lexerError = NUM_TOO_LONG, errorLine = 0,
          out_tokenList = Some [\<lparr>tok_id = identsym, lexeme = ''x''\<rparr>,
                                \<lparr>tok_id = becomessym, lexeme = '':=''\<rparr>]\<rparr>"
  by code_simp


section \<open>Code generator: running it on a given program\<close>

text \<open>
  The equations that unfold a run of the code generator on a given token list. The runs
  below hold for every content \<open>junk\<close> of the uninitialised \<^verbatim>\<open>Symbol\<close> objects.
\<close>

lemmas cg_run =
  codeGenerator_def program_def initCG_def const_declaration_def var_declaration_def
  const_item_def var_item_def const_loop.simps var_loop.simps
  getCurrentTokenType_def getCurrentToken_def nextToken_def emit_def bnd_def
  lookupCurrent_def findSymbol_def findLevel_def emit_for_current_def decReg_def incReg_def
  patch_m_def addSymbol_def condition_def condition_relop_def relop_step_def
  atoi_def isspace_def isdigit_def MAX_CODE_LENGTH_def Let_def eval_nat_numeral

section \<open>Code generator: assignment and call of the wrong kind of symbol\<close>

text \<open>
  What \<^verbatim>\<open>statement\<close> does, for any state: an assignment whose target resolves to a symbol
  that is not a variable ends with error 16; a call whose identifier resolves to a symbol
  that is not a procedure ends with the value 7 (the code of a missing \<open>:=\<close>).
\<close>

lemma statement_assign_non_var:
  "getCurrentTokenType s = identsym \<Longrightarrow> lookupCurrent s = Some sy \<Longrightarrow>
     sym_type sy \<noteq> VAR_kind \<Longrightarrow> statement (Suc n) s = Inl (Err 16)"
  by simp

lemma statement_call_non_proc:
  "getCurrentTokenType s = callsym \<Longrightarrow> getCurrentTokenType (nextToken s) = identsym \<Longrightarrow>
     lookupCurrent (nextToken s) = Some sy \<Longrightarrow> sym_type sy \<noteq> PROC_kind \<Longrightarrow>
     statement (Suc n) s = Inl (Err 7)"
  by (simp add: Let_def)

text \<open>
  C3. The claim wants error 17 for a call of a constant or of a variable. The programs
  \<open>const c = 1; call c.\<close> and \<open>var x; call x.\<close> both end with 7: the source returns 7
  where its own comment says 17.
\<close>

theorem call_of_constant_returns_7:
  "(case codeGenerator 10 junk
      [tok constsym ''const'', tok identsym ''c'', tok eqsym ''='', tok numbersym ''1'',
       tok semicolonsym '';'', tok callsym ''call'', tok identsym ''c'', tok periodsym ''.'']
    of Inl e \<Rightarrow> e = Err 7 | Inr s \<Rightarrow> False) \<and>
   (case codeGenerator 10 junk
      [tok varsym ''var'', tok identsym ''x'', tok semicolonsym '';'',
       tok callsym ''call'', tok identsym ''x'', tok periodsym ''.'']
    of Inl e \<Rightarrow> e = Err 7 | Inr s \<Rightarrow> False)"
  by (simp add: cg_run)

section \<open>Code generator: the call instruction\<close>

text \<open>
  What \<^verbatim>\<open>statement\<close> emits for \<open>call ident\<close> with a procedure symbol, for any state: one
  \<open>CAL\<close> whose \<open>l\<close> field is the symbol's address field and whose \<open>m\<close> field is 4.
\<close>

lemma statement_call_proc:
  "getCurrentTokenType s = callsym \<Longrightarrow> getCurrentTokenType (nextToken s) = identsym \<Longrightarrow>
     lookupCurrent (nextToken s) = Some sy \<Longrightarrow> sym_type sy = PROC_kind \<Longrightarrow>
     length (vmCode s) \<noteq> MAX_CODE_LENGTH \<Longrightarrow>
     statement (Suc n) s =
       Inr (nextToken (nextToken s)
             \<lparr>vmCode := vmCode s @ [\<lparr>ins_op = CAL, ins_r = 0, ins_l = address sy, ins_m = 4\<rparr>]\<rparr>)"
  by (simp add: Let_def emit_def bnd_def nextToken_def)

text \<open>
  C4. The claim wants \<open>CAL 0 d a\<close> with \<open>d\<close> the level difference and \<open>a\<close> the code
  address of the procedure. In \<open>procedure p; ; procedure q; call p; .\<close> the call of \<open>p\<close>
  stands one level below the declaration of \<open>p\<close>, whose code starts at index 0. The
  instruction emitted is \<open>CAL 0 a 4\<close>, with \<open>a\<close> the content the address field of the
  symbol of \<open>p\<close> had before the declaration: the \<open>m\<close> field is 4 and the \<open>l\<close> field is not
  computed from any level.
\<close>

theorem call_emits_address_and_4:
  "(case codeGenerator 10 junk
      [tok procsym ''procedure'', tok identsym ''p'', tok semicolonsym '';'',
       tok semicolonsym '';'',
       tok procsym ''procedure'', tok identsym ''q'', tok semicolonsym '';'',
       tok callsym ''call'', tok identsym ''p'', tok semicolonsym '';'',
       tok periodsym ''.'']
    of Inl e \<Rightarrow> False
     | Inr s \<Rightarrow>
         vmCode s =
           [\<lparr>ins_op = JMP, ins_r = 0, ins_l = 0, ins_m = 2\<rparr>,
            \<lparr>ins_op = INC, ins_r = 0, ins_l = 0, ins_m = 4\<rparr>,
            \<lparr>ins_op = JMP, ins_r = 0, ins_l = 0, ins_m = 5\<rparr>,
            \<lparr>ins_op = INC, ins_r = 0, ins_l = 0, ins_m = 4\<rparr>,
            \<lparr>ins_op = CAL, ins_r = 0, ins_l = address (junk 0), ins_m = 4\<rparr>,
            \<lparr>ins_op = SIO_HALT, ins_r = 0, ins_l = 0, ins_m = 3\<rparr>])"
  by (simp add: cg_run)

section \<open>Code generator: relational conditions\<close>

text \<open>
  C5. The claim wants the comparison emitted after the code of both operands. For
  \<open>if 1 = 2 then .\<close> the comparison \<open>EQL\<close> stands at index 1, between the code of the
  left operand (index 0) and the code of the right operand (index 2): \<^verbatim>\<open>condition\<close> emits
  it, and lowers \<^verbatim>\<open>currentReg\<close>, before it consumes the operator.
\<close>

theorem comparison_emitted_before_rhs:
  "(case codeGenerator 10 junk
      [tok ifsym ''if'', tok numbersym ''1'', tok eqsym ''='', tok numbersym ''2'',
       tok thensym ''then'', tok periodsym ''.'']
    of Inl e \<Rightarrow> False
     | Inr s \<Rightarrow>
         vmCode s =
           [\<lparr>ins_op = LIT, ins_r = 0, ins_l = 0, ins_m = 1\<rparr>,
            \<lparr>ins_op = EQL, ins_r = 0, ins_l = 0, ins_m = 1\<rparr>,
            \<lparr>ins_op = LIT, ins_r = 0, ins_l = 0, ins_m = 2\<rparr>,
            \<lparr>ins_op = JPC, ins_r = 1, ins_l = 0, ins_m = 4\<rparr>,
            \<lparr>ins_op = SIO_HALT, ins_r = 0, ins_l = 0, ins_m = 3\<rparr>])"
  by (simp add: cg_run)

section \<open>Code generator: addresses of variables\<close>

text \<open>
  What a variable declaration stores, for any state: the address field (and the value
  field) of the added symbol is the content the \<^verbatim>\<open>Symbol\<close> object had before; the source
  never assigns it.
\<close>

lemma var_item_address_unwritten:
  "var_item s = Inr s' \<Longrightarrow>
     \<exists>sy. symbolTable s' = symbolTable s @ [sy] \<and>
          address sy = address (uninit s (length (symbolTable s))) \<and>
          sym_value sy = sym_value (uninit s (length (symbolTable s)))"
  by (auto simp: var_item_def Let_def bnd_def emit_def addSymbol_def nextToken_def
        split: if_splits)

text \<open>
  C6. The claim wants the variables of a block at the addresses 4, 5, ... and these
  addresses in the \<open>m\<close> field of their \<open>LOD\<close> and \<open>STO\<close>. For
  \<open>var x, y; begin read x; read y end.\<close> the symbols of \<open>x\<close> and \<open>y\<close> carry the content
  their address fields had before the declarations, and the two \<open>STO\<close> carry the same
  content in \<open>m\<close>: no address is computed. With memory that reads as zero, both
  addresses are 0.
\<close>

theorem var_address_never_assigned:
  "(case codeGenerator 10 junk
      [tok varsym ''var'', tok identsym ''x'', tok commasym '','', tok identsym ''y'',
       tok semicolonsym '';'',
       tok beginsym ''begin'', tok readsym ''read'', tok identsym ''x'', tok semicolonsym '';'',
       tok readsym ''read'', tok identsym ''y'', tok endsym ''end'', tok periodsym ''.'']
    of Inl e \<Rightarrow> False
     | Inr s \<Rightarrow>
         map (\<lambda>sy. (name sy, address sy)) (symbolTable s) =
           [(''x'', address (junk 0)), (''y'', address (junk 1))] \<and>
         vmCode s =
           [\<lparr>ins_op = INC, ins_r = 0, ins_l = 0, ins_m = 2\<rparr>,
            \<lparr>ins_op = INC, ins_r = 0, ins_l = 0, ins_m = 2\<rparr>,
            \<lparr>ins_op = SIO_READ, ins_r = 0, ins_l = 0, ins_m = 2\<rparr>,
            \<lparr>ins_op = STO, ins_r = 0, ins_l = 0, ins_m = address (junk 0)\<rparr>,
            \<lparr>ins_op = SIO_READ, ins_r = - 1, ins_l = 0, ins_m = 2\<rparr>,
            \<lparr>ins_op = STO, ins_r = - 1, ins_l = 0, ins_m = address (junk 1)\<rparr>,
            \<lparr>ins_op = SIO_HALT, ins_r = 0, ins_l = 0, ins_m = 3\<rparr>])"
  by (simp add: cg_run)

section \<open>Code generator: the register counter\<close>

text \<open>
  What \<^verbatim>\<open>statement\<close> does to the register counter on \<open>read\<close>, for any state: where it
  returns 0 it has lowered \<^verbatim>\<open>currentReg\<close> by one.
\<close>

lemma statement_read_lowers_currentReg:
  "getCurrentTokenType s = readsym \<Longrightarrow> statement (Suc n) s = Inr s' \<Longrightarrow>
     currentReg s' = currentReg s - 1"
  by (auto simp: Let_def bnd_def emit_def emit_for_current_def findLevel_def nextToken_def
        decReg_def split: if_splits option.splits sum.splits)

text \<open>
  C1. The claim wants \<^verbatim>\<open>currentReg\<close> unchanged over every statement and raised by one
  over every expression, whenever code generation succeeds. Code generation succeeds on
  \<open>var x; read x.\<close>, and its \<open>read\<close> statement, entered at token 3 with \<^verbatim>\<open>currentReg\<close> 0,
  returns at token 5 with \<^verbatim>\<open>currentReg\<close> -1. Code generation succeeds on
  \<open>if odd -1 then .\<close>, and its expression \<open>-1\<close>, entered at token 2 with \<^verbatim>\<open>currentReg\<close> 0,
  returns at token 4 with \<^verbatim>\<open>currentReg\<close> 0.
\<close>

theorem curReg_not_preserved:
  "(case codeGenerator 10 junk
      [tok varsym ''var'', tok identsym ''x'', tok semicolonsym '';'',
       tok readsym ''read'', tok identsym ''x'', tok periodsym ''.'']
    of Inl e \<Rightarrow> False | Inr s \<Rightarrow> currentReg s = - 1) \<and>
   (case var_declaration (initCG junk
      [tok varsym ''var'', tok identsym ''x'', tok semicolonsym '';'',
       tok readsym ''read'', tok identsym ''x'', tok periodsym ''.''])
    of Inl e \<Rightarrow> False
     | Inr s0 \<Rightarrow>
         currentTokenInd s0 = 3 \<and> currentReg s0 = 0 \<and>
         (case statement 5 s0 of Inl e \<Rightarrow> False
          | Inr s1 \<Rightarrow> currentTokenInd s1 = 5 \<and> currentReg s1 = - 1)) \<and>
   (case codeGenerator 10 junk
      [tok ifsym ''if'', tok oddsym ''odd'', tok minussym ''-'', tok numbersym ''1'',
       tok thensym ''then'', tok periodsym ''.'']
    of Inl e \<Rightarrow> False | Inr s \<Rightarrow> True) \<and>
   (case expression 5 ((initCG junk
      [tok ifsym ''if'', tok oddsym ''odd'', tok minussym ''-'', tok numbersym ''1'',
       tok thensym ''then'', tok periodsym ''.''])\<lparr>currentTokenInd := 2\<rparr>)
    of Inl e \<Rightarrow> False
     | Inr s1 \<Rightarrow> currentTokenInd s1 = 4 \<and> currentReg s1 = 0)"
  by (simp add: cg_run)

section \<open>Virtual machine: what stops the machine\<close>

lemma w32_id: "int32 x \<Longrightarrow> w32 x = x"
  by (simp add: w32_def int32_def)

lemma w32_range: "int32 (w32 x)"
  by (simp add: w32_def int32_def)

lemma executeInstruction_illegal:
  "ins_op ins < 1 \<or> 24 < ins_op ins \<Longrightarrow>
     executeInstruction vm ins io =
       Inr (HALT, vm, io\<lparr>vmErr := vmErr io @ [''Illegal instruction?'']\<rparr>)"
  by (auto simp: executeInstruction_def Let_def)

lemma executeInstruction_INC:
  "ins_op ins = INC \<Longrightarrow>
     executeInstruction vm ins io = Inr (CONT, vm\<lparr>SP := w32 (SP vm + ins_m ins)\<rparr>, io)"
  by (simp add: executeInstruction_def Let_def INC_def)

lemma executeInstruction_zero_divisor:
  "ins_op ins = DIV \<or> ins_op ins = MOD \<Longrightarrow> rd_reg vm (ins_l ins) = Inr a \<Longrightarrow>
     rd_reg vm (ins_m ins) = Inr 0 \<Longrightarrow> executeInstruction vm ins io = Inl DivideByZero"
  by (auto simp: executeInstruction_def Let_def DIV_def MOD_def cont_def divop_def bnd_def)

lemma opcode_name_outside:
  "op < 0 \<or> 24 < op \<Longrightarrow> opcode_name op = Inl OpcodeIndex"
  by (auto simp: opcode_name_def opcodes_def)

lemma opcode_name_0: "opcode_name 0 = Inr ''illegal''"
  by (simp add: opcode_name_def opcodes_def)

lemma opcode_name_stop: "opcode_name op = Inl u \<Longrightarrow> u = OpcodeIndex"
  by (simp add: opcode_name_def split: if_splits)

lemma dumpInstructions_stop: "dumpInstructions i code = Inl u \<Longrightarrow> u = OpcodeIndex"
proof (induction code arbitrary: i u)
  case Nil
  then show ?case by simp
next
  case (Cons x xs)
  show ?case
  proof (cases "opcode_name (ins_op x)")
    case (Inl v)
    with Cons.prems opcode_name_stop [OF Inl] show ?thesis by (simp add: bnd_def)
  next
    case (Inr nm)
    show ?thesis
    proof (cases "dumpInstructions (Suc i) xs")
      case (Inl v)
      with Cons.prems Inr Cons.IH [OF Inl] show ?thesis by (simp add: bnd_def)
    next
      case r: (Inr ls)
      with Cons.prems Inr show ?thesis by (simp add: bnd_def)
    qed
  qed
qed

lemma dumpInstructions_outside:
  "x \<in> set code \<Longrightarrow> ins_op x < 0 \<or> 24 < ins_op x \<Longrightarrow>
     dumpInstructions i code = Inl OpcodeIndex"
proof (induction code arbitrary: i)
  case Nil
  then show ?case by simp
next
  case (Cons y ys)
  show ?case
  proof (cases "opcode_name (ins_op y)")
    case (Inl v)
    with opcode_name_stop [OF Inl] show ?thesis by (simp add: bnd_def)
  next
    case (Inr nm)
    with Cons.prems opcode_name_outside have "x \<noteq> y" by auto
    with Cons.prems have "x \<in> set ys" by simp
    from Cons.IH [OF this Cons.prems(2)] Inr show ?thesis by (simp add: bnd_def)
  qed
qed

lemma fetch_range:
  "fetch code junk pc = Inr ins \<Longrightarrow> 0 \<le> pc \<and> pc < int MAX_CODE_LENGTH"
  by (simp add: fetch_def split: if_splits)

lemma fetch_w32:
  "fetch code junk pc = Inr ins \<Longrightarrow> w32 (pc + 1) = pc + 1"
  by (drule fetch_range) (simp add: w32_def MAX_CODE_LENGTH_def)

lemma run_loop_illegal:
  assumes f: "fetch code junk (PC vm) = Inr ins" and op: "ins_op ins = 0"
  shows "run_loop d (Suc n) code junk vm io =
     bnd (dumpStack d (stack vm) (SP vm) (BP vm))
       (\<lambda>dmp. Inr (vm\<lparr>PC := PC vm + 1\<rparr>,
                    io\<lparr>vmErr := vmErr io @ [''Illegal instruction?''],
                       outp := outp io @
                         [ExecLine (PC vm) ''illegal'' (ins_r ins) (ins_l ins) (ins_m ins)
                            (PC vm + 1) (BP vm) (SP vm) dmp,
                          HLT_line]\<rparr>))"
proof -
  from op have ill: "ins_op ins < 1 \<or> 24 < ins_op ins" by simp
  show ?thesis
    using f fetch_w32 [OF f] op
    by (cases "dumpStack d (stack vm) (SP vm) (BP vm)")
       (simp_all add: executeInstruction_illegal [OF ill] opcode_name_0 bnd_def Let_def)
qed

lemma run_loop_outside:
  assumes f: "fetch code junk (PC vm) = Inr ins" and op: "ins_op ins < 0 \<or> 24 < ins_op ins"
  shows "run_loop d (Suc n) code junk vm io = Inl OpcodeIndex"
proof -
  from op have ill: "ins_op ins < 1 \<or> 24 < ins_op ins" by auto
  show ?thesis
    using f
    by (simp add: executeInstruction_illegal [OF ill] opcode_name_outside [OF op] bnd_def
          Let_def)
qed

lemma run_loop_fetch_outside:
  "PC vm < 0 \<or> int MAX_CODE_LENGTH \<le> PC vm \<Longrightarrow>
     run_loop d (Suc n) code junk vm io = Inl FetchIndex"
  by (auto simp: fetch_def bnd_def)

lemma simulateVM_outside:
  assumes "length code \<le> MAX_CODE_LENGTH" "x \<in> set code" "ins_op x < 0 \<or> 24 < ins_op x"
  shows "simulateVM d n code junk io = Inl OpcodeIndex"
  using assms(1) dumpInstructions_outside [OF assms(2,3)]
  by (simp add: simulateVM_def bnd_def)

lemma fetch_uninitialised:
  "int (length code) \<le> pc \<Longrightarrow> pc < int MAX_CODE_LENGTH \<Longrightarrow>
     fetch code junk pc = Inr (junk (nat pc))"
  by (auto simp: fetch_def)

subsection \<open>The 32-bit range\<close>

text \<open>
  \<^verbatim>\<open>executeInstruction\<close> keeps every register, every stack cell, \<open>BP\<close>, \<open>SP\<close> and \<open>PC\<close> in
  the 32-bit range, for an instruction and an input in that range: the integers of the
  model are those of the machine.
\<close>

lemma list_all_update: "list_all P xs \<Longrightarrow> P v \<Longrightarrow> list_all P (xs[i := v])"
  by (induction xs arbitrary: i) (auto split: nat.splits)

lemma rd_reg_int32: "vm_int32 vm \<Longrightarrow> rd_reg vm i = Inr v \<Longrightarrow> int32 v"
  by (auto simp: vm_int32_def rd_reg_def list_all_length split: if_splits)

lemma wr_reg_int32: "vm_int32 vm \<Longrightarrow> int32 v \<Longrightarrow> wr_reg vm i v = Inr vm' \<Longrightarrow> vm_int32 vm'"
  by (auto simp: vm_int32_def wr_reg_def list_all_update split: if_splits)

lemma rd_stack_int32: "list_all int32 stk \<Longrightarrow> rd_stack stk i = Inr v \<Longrightarrow> int32 v"
  by (auto simp: rd_stack_def list_all_length split: if_splits)

lemma wr_stack_int32: "vm_int32 vm \<Longrightarrow> int32 v \<Longrightarrow> wr_stack vm i v = Inr vm' \<Longrightarrow> vm_int32 vm'"
  by (auto simp: vm_int32_def wr_stack_def list_all_update split: if_splits)

lemma getBasePointer_int32:
  "list_all int32 stk \<Longrightarrow> int32 b \<Longrightarrow> getBasePointer stk b L = Inr v \<Longrightarrow> int32 v"
proof (induction stk b L rule: getBasePointer.induct)
  case (1 stk currentBP L)
  show ?case
  proof (cases "L > 0")
    case True
    with "1.prems"(3) obtain b1 where
      r: "rd_stack stk (w32 (currentBP + 1)) = Inr b1" and
      g: "getBasePointer stk b1 (L - 1) = Inr v"
      by (subst (asm) getBasePointer.simps) (auto split: sum.splits)
    from "1.IH" [OF True r "1.prems"(1) rd_stack_int32 [OF "1.prems"(1) r] g]
    show ?thesis .
  next
    case False
    with "1.prems"(3) have "v = currentBP"
      by (simp add: getBasePointer.simps [of stk currentBP L])
    with "1.prems"(2) show ?thesis by simp
  qed
qed

lemma c_div_int32:
  assumes "int32 a" "int32 b" "b \<noteq> 0" "\<not> (a = - 2147483648 \<and> b = - 1)"
  shows "int32 (c_div a b)"
proof -
  define q where "q = \<bar>a\<bar> div \<bar>b\<bar>"
  have q0: "0 \<le> q" unfolding q_def by (simp add: div_int_pos_iff)
  show ?thesis
  proof (cases "\<bar>b\<bar> = 1")
    case True
    then have "b = 1 \<or> b = - 1" by auto
    with assms show ?thesis by (auto simp: c_div_def int32_def sgn_if)
  next
    case False
    with assms(3) have b2: "2 \<le> \<bar>b\<bar>" by auto
    have "q \<le> \<bar>a\<bar> div 2"
      unfolding q_def using b2 by (intro zdiv_mono2) simp_all
    moreover have "\<bar>a\<bar> \<le> 2147483648" using assms(1) by (auto simp: int32_def)
    ultimately have q1: "q \<le> 1073741824" by simp
    have "c_div a b = sgn a * sgn b * q" by (simp add: c_div_def q_def)
    with q0 q1 show ?thesis by (auto simp: int32_def sgn_if)
  qed
qed

lemma c_mod_abs: "c_mod a b = sgn a * (\<bar>a\<bar> mod \<bar>b\<bar>)"
proof -
  define q where "q = \<bar>a\<bar> div \<bar>b\<bar>"
  have m: "\<bar>a\<bar> mod \<bar>b\<bar> = \<bar>a\<bar> - \<bar>b\<bar> * q"
    unfolding q_def by (simp add: minus_mult_div_eq_mod)
  have "c_mod a b = a - b * (sgn a * sgn b * q)" by (simp add: c_mod_def c_div_def q_def)
  also have "\<dots> = sgn a * (\<bar>a\<bar> - \<bar>b\<bar> * q)"
    by (simp add: sgn_if abs_if algebra_simps)
  finally show ?thesis by (simp add: m)
qed

lemma c_mod_int32:
  assumes "int32 a" "int32 b" "b \<noteq> 0"
  shows "int32 (c_mod a b)"
proof -
  define m where "m = \<bar>a\<bar> mod \<bar>b\<bar>"
  have "0 \<le> m" "m < \<bar>b\<bar>" unfolding m_def using assms(3) by simp_all
  moreover have "\<bar>b\<bar> \<le> 2147483648" using assms(2) by (auto simp: int32_def)
  moreover have "c_mod a b = sgn a * m" by (simp add: c_mod_abs m_def)
  ultimately show ?thesis by (auto simp: int32_def sgn_if)
qed

lemma c_bool_int32: "int32 (c_bool p)"
  by (simp add: c_bool_def int32_def)


lemma cont_Inr: "cont io x = Inr (st, vm', io') \<Longrightarrow> x = Inr vm' \<and> io' = io"
  by (cases x) (simp_all add: cont_def bnd_def)

lemma binop_int32:
  assumes "vm_int32 vm" "\<And>a b. int32 (f a b)" "binop f vm ins = Inr vm'"
  shows "vm_int32 vm'"
proof -
  from assms(3) obtain a b where "wr_reg vm (ins_r ins) (f a b) = Inr vm'"
    by (auto simp: binop_def bnd_def split: sum.splits)
  from wr_reg_int32 [OF assms(1) assms(2) this] show ?thesis .
qed

lemma divop_int32:
  assumes "vm_int32 vm"
    "\<And>a b. int32 a \<Longrightarrow> int32 b \<Longrightarrow> b \<noteq> 0 \<Longrightarrow> \<not> (a = - 2147483648 \<and> b = - 1) \<Longrightarrow> int32 (f a b)"
    "divop f vm ins = Inr vm'"
  shows "vm_int32 vm'"
proof -
  from assms(3) obtain a b where
    a: "rd_reg vm (ins_l ins) = Inr a" and b: "rd_reg vm (ins_m ins) = Inr b" and
    nz: "b \<noteq> 0" and no: "\<not> (a = - 2147483648 \<and> b = - 1)" and
    w: "wr_reg vm (ins_r ins) (f a b) = Inr vm'"
    by (auto simp: divop_def bnd_def split: sum.splits if_splits)
  from assms(2) [OF rd_reg_int32 [OF assms(1) a] rd_reg_int32 [OF assms(1) b] nz no]
  have "int32 (f a b)" .
  from wr_reg_int32 [OF assms(1) this w] show ?thesis .
qed

lemma executeInstruction_int32:
  assumes vm: "vm_int32 vm" and ins: "ins_int32 ins" and inp: "list_all int32 (vmIn io)"
    and ex: "executeInstruction vm ins io = Inr (st, vm', io')"
  shows "vm_int32 vm' \<and> list_all int32 (vmIn io')"
proof -
  from ins have m: "int32 (ins_m ins)" by (simp add: ins_int32_def)
  from vm have stk: "list_all int32 (stack vm)" and bp: "int32 (BP vm)"
    by (simp_all add: vm_int32_def)
  let ?op = "ins_op ins"
  consider (lit) "?op = 1" | (rtn) "?op = 2" | (lod) "?op = 3" | (sto) "?op = 4"
    | (cal) "?op = 5" | (inc) "?op = 6" | (jmp) "?op = 7" | (jpc) "?op = 8"
    | (wrt) "?op = 9" | (rd) "?op = 10" | (hlt) "?op = 11" | (neg) "?op = 12"
    | (bin) "?op = 13 \<or> ?op = 14 \<or> ?op = 15 \<or> ?op = 19 \<or> ?op = 20 \<or> ?op = 21 \<or>
             ?op = 22 \<or> ?op = 23 \<or> ?op = 24"
    | (dv) "?op = 16 \<or> ?op = 18" | (odd) "?op = 17"
    | (ill) "?op < 1 \<or> 24 < ?op"
    by atomize_elim presburger
  then show ?thesis
  proof cases
    case lit
    with ex have "cont io (wr_reg vm (ins_r ins) (ins_m ins)) = Inr (st, vm', io')"
      by (simp add: executeInstruction_def Let_def)
    from cont_Inr [OF this] wr_reg_int32 [OF vm m] inp show ?thesis by auto
  next
    case rtn
    with ex have
      "cont io
         (bnd (rd_stack (stack vm) (w32 (w32 (BP vm - 1) + 3)))
            (\<lambda>b. bnd (rd_stack (stack vm) (w32 (w32 (BP vm - 1) + 4)))
                   (\<lambda>p. Inr (vm\<lparr>SP := w32 (BP vm - 1), BP := b, PC := p\<rparr>))))
       = Inr (st, vm', io')"
      by (simp add: executeInstruction_def Let_def)
    from cont_Inr [OF this] obtain b p where
      b: "rd_stack (stack vm) (w32 (w32 (BP vm - 1) + 3)) = Inr b" and
      p: "rd_stack (stack vm) (w32 (w32 (BP vm - 1) + 4)) = Inr p" and
      v: "vm' = vm\<lparr>SP := w32 (BP vm - 1), BP := b, PC := p\<rparr>" and io: "io' = io"
      by (auto simp: bnd_def split: sum.splits)
    from rd_stack_int32 [OF stk b] rd_stack_int32 [OF stk p] vm v io inp
    show ?thesis by (simp add: vm_int32_def w32_range)
  next
    case lod
    with ex have
      "cont io
         (bnd (getBasePointer (stack vm) (BP vm) (ins_l ins))
            (\<lambda>b. bnd (rd_stack (stack vm) (w32 (b + ins_m ins)))
                   (\<lambda>v. wr_reg vm (ins_r ins) v)))
       = Inr (st, vm', io')"
      by (simp add: executeInstruction_def Let_def)
    from cont_Inr [OF this] obtain b v where
      r: "rd_stack (stack vm) (w32 (b + ins_m ins)) = Inr v" and
      w: "wr_reg vm (ins_r ins) v = Inr vm'" and io: "io' = io"
      by (auto simp: bnd_def split: sum.splits)
    from wr_reg_int32 [OF vm rd_stack_int32 [OF stk r] w] io inp show ?thesis by auto
  next
    case sto
    with ex have
      "cont io
         (bnd (getBasePointer (stack vm) (BP vm) (ins_l ins))
            (\<lambda>b. bnd (rd_reg vm (ins_r ins)) (\<lambda>v. wr_stack vm (w32 (b + ins_m ins)) v)))
       = Inr (st, vm', io')"
      by (simp add: executeInstruction_def Let_def)
    from cont_Inr [OF this] obtain b v where
      r: "rd_reg vm (ins_r ins) = Inr v" and
      w: "wr_stack vm (w32 (b + ins_m ins)) v = Inr vm'" and io: "io' = io"
      by (auto simp: bnd_def split: sum.splits)
    from wr_stack_int32 [OF vm rd_reg_int32 [OF vm r] w] io inp show ?thesis by auto
  next
    case cal
    with ex have
      "cont io
         (bnd (wr_stack vm (w32 (SP vm + 1)) 0)
            (\<lambda>vm1. bnd (getBasePointer (stack vm1) (BP vm1) (ins_l ins))
               (\<lambda>b. bnd (wr_stack vm1 (w32 (SP vm1 + 2)) b)
                  (\<lambda>vm2. bnd (wr_stack vm2 (w32 (SP vm2 + 3)) (BP vm2))
                     (\<lambda>vm3. bnd (wr_stack vm3 (w32 (SP vm3 + 4)) (PC vm3))
                        (\<lambda>vm4. Inr (vm4\<lparr>BP := w32 (SP vm4 + 1), PC := ins_m ins\<rparr>)))))))
       = Inr (st, vm', io')"
      by (simp add: executeInstruction_def Let_def)
    from cont_Inr [OF this] obtain vm1 b vm2 vm3 vm4 where
      w1: "wr_stack vm (w32 (SP vm + 1)) 0 = Inr vm1" and
      g: "getBasePointer (stack vm1) (BP vm1) (ins_l ins) = Inr b" and
      w2: "wr_stack vm1 (w32 (SP vm1 + 2)) b = Inr vm2" and
      w3: "wr_stack vm2 (w32 (SP vm2 + 3)) (BP vm2) = Inr vm3" and
      w4: "wr_stack vm3 (w32 (SP vm3 + 4)) (PC vm3) = Inr vm4" and
      v: "vm' = vm4\<lparr>BP := w32 (SP vm4 + 1), PC := ins_m ins\<rparr>" and io: "io' = io"
      by (auto simp: bnd_def split: sum.splits)
    have z: "int32 0" by (simp add: int32_def)
    from wr_stack_int32 [OF vm z w1] have v1: "vm_int32 vm1" .
    then have "list_all int32 (stack vm1)" "int32 (BP vm1)" by (simp_all add: vm_int32_def)
    from getBasePointer_int32 [OF this g] have "int32 b" .
    from wr_stack_int32 [OF v1 this w2] have v2: "vm_int32 vm2" .
    then have "int32 (BP vm2)" by (simp add: vm_int32_def)
    from wr_stack_int32 [OF v2 this w3] have v3: "vm_int32 vm3" .
    then have "int32 (PC vm3)" by (simp add: vm_int32_def)
    from wr_stack_int32 [OF v3 this w4] have "vm_int32 vm4" .
    with v m io inp show ?thesis by (simp add: vm_int32_def w32_range)
  next
    case inc
    with ex have "vm' = vm\<lparr>SP := w32 (SP vm + ins_m ins)\<rparr>" "io' = io"
      by (simp_all add: executeInstruction_def Let_def)
    with vm inp show ?thesis by (simp add: vm_int32_def w32_range)
  next
    case jmp
    with ex have "vm' = vm\<lparr>PC := ins_m ins\<rparr>" "io' = io"
      by (simp_all add: executeInstruction_def Let_def)
    with vm m inp show ?thesis by (simp add: vm_int32_def)
  next
    case jpc
    with ex have
      "cont io (bnd (rd_reg vm (ins_r ins))
                  (\<lambda>v. if v = 0 then Inr (vm\<lparr>PC := ins_m ins\<rparr>) else Inr vm))
       = Inr (st, vm', io')"
      by (simp add: executeInstruction_def Let_def)
    from cont_Inr [OF this] have "vm' = vm\<lparr>PC := ins_m ins\<rparr> \<or> vm' = vm" "io' = io"
      by (auto simp: bnd_def split: sum.splits if_splits)
    with vm m inp show ?thesis by (auto simp: vm_int32_def)
  next
    case wrt
    with ex have "vm' = vm" "vmIn io' = vmIn io"
      by (auto simp: executeInstruction_def Let_def bnd_def split: sum.splits)
    with vm inp show ?thesis by auto
  next
    case rd
    with ex have e:
      "(case vmIn io of
          [] \<Rightarrow> bnd (rd_reg vm (ins_r ins)) (\<lambda>v. Inr (CONT, vm, io))
        | x # xs \<Rightarrow> bnd (wr_reg vm (ins_r ins) x) (\<lambda>vm1. Inr (CONT, vm1, io\<lparr>vmIn := xs\<rparr>)))
       = Inr (st, vm', io')"
      by (simp add: executeInstruction_def Let_def)
    show ?thesis
    proof (cases "vmIn io")
      case Nil
      with e have "vm' = vm" "io' = io" by (auto simp: bnd_def split: sum.splits)
      with vm inp show ?thesis by auto
    next
      case (Cons x xs)
      with e have w: "wr_reg vm (ins_r ins) x = Inr vm'" and io: "vmIn io' = xs"
        by (auto simp: bnd_def split: sum.splits)
      from inp Cons have "int32 x" "list_all int32 xs" by simp_all
      with wr_reg_int32 [OF vm _ w] io show ?thesis by auto
    qed
  next
    case hlt
    with ex have "vm' = vm" "io' = io" by (simp_all add: executeInstruction_def Let_def)
    with vm inp show ?thesis by auto
  next
    case neg
    with ex have
      "cont io (bnd (rd_reg vm (ins_l ins)) (\<lambda>a. wr_reg vm (ins_r ins) (w32 (0 - a))))
       = Inr (st, vm', io')"
      by (simp add: executeInstruction_def Let_def)
    from cont_Inr [OF this] obtain a where
      w: "wr_reg vm (ins_r ins) (w32 (0 - a)) = Inr vm'" and io: "io' = io"
      by (auto simp: bnd_def split: sum.splits)
    from wr_reg_int32 [OF vm w32_range w] io inp show ?thesis by auto
  next
    case bin
    with ex obtain f where
      e: "cont io (binop f vm ins) = Inr (st, vm', io')" and f: "\<And>a b. int32 (f a b)"
      by (auto simp: executeInstruction_def Let_def w32_range c_bool_int32)
    from cont_Inr [OF e] binop_int32 [OF vm f] inp show ?thesis by auto
  next
    case dv
    with ex obtain f where
      e: "cont io (divop f vm ins) = Inr (st, vm', io')" and
      f: "\<And>a b. int32 a \<Longrightarrow> int32 b \<Longrightarrow> b \<noteq> 0 \<Longrightarrow> \<not> (a = - 2147483648 \<and> b = - 1) \<Longrightarrow>
            int32 (f a b)"
      by (auto simp: executeInstruction_def Let_def c_div_int32 c_mod_int32)
    from cont_Inr [OF e] divop_int32 [OF vm f] inp show ?thesis by auto
  next
    case odd
    with ex have
      "cont io (bnd (rd_reg vm (ins_r ins)) (\<lambda>a. wr_reg vm (ins_r ins) (c_mod a 2)))
       = Inr (st, vm', io')"
      by (simp add: executeInstruction_def Let_def)
    from cont_Inr [OF this] obtain a where
      r: "rd_reg vm (ins_r ins) = Inr a" and
      w: "wr_reg vm (ins_r ins) (c_mod a 2) = Inr vm'" and io: "io' = io"
      by (auto simp: bnd_def split: sum.splits)
    have "int32 (c_mod a 2)"
      by (rule c_mod_int32 [OF rd_reg_int32 [OF vm r]]) (simp_all add: int32_def)
    from wr_reg_int32 [OF vm this w] io inp show ?thesis by auto
  next
    case ill
    with ex have "vm' = vm" "vmIn io' = vmIn io"
      by (auto simp: executeInstruction_def Let_def)
    with vm inp show ?thesis by auto
  qed
qed

subsection \<open>The checks of the machine\<close>

text \<open>
  C2, as the code has it. Of the four conditions the machine tests one, the opcode, in
  the \<^verbatim>\<open>default\<close> case of the \<^verbatim>\<open>switch\<close>. An opcode outside 1..24 makes
  \<^verbatim>\<open>executeInstruction\<close> write its message and return \<open>HALT\<close> with the machine unchanged.
  When the fetched opcode is 0 the loop then writes the line of the trace and stops with
  that instruction the last one executed; for an opcode outside 0..24 the trace indexes
  the table of mnemonics outside its bounds, and so does the listing, before the first
  instruction runs, when such an instruction is in the loaded code. \<open>INC\<close> continues with
  \<open>SP + m\<close> in 32-bit arithmetic and compares it with nothing. \<open>DIV\<close> and \<open>MOD\<close> divide by
  a zero divisor. The fetch compares \<open>PC\<close> with nothing: at or past the end of the loaded
  code and inside the code memory it yields the content of an uninitialised cell, and
  outside the code memory it reads outside the array.
\<close>

theorem vm_checks_only_the_opcode:
  "(ins_op ins < 1 \<or> 24 < ins_op ins \<longrightarrow>
      executeInstruction vm ins io =
        Inr (HALT, vm, io\<lparr>vmErr := vmErr io @ [''Illegal instruction?'']\<rparr>)) \<and>
   (fetch code junk (PC vm) = Inr ins \<and> ins_op ins = 0 \<longrightarrow>
      run_loop d (Suc n) code junk vm io =
        bnd (dumpStack d (stack vm) (SP vm) (BP vm))
          (\<lambda>dmp. Inr (vm\<lparr>PC := PC vm + 1\<rparr>,
                       io\<lparr>vmErr := vmErr io @ [''Illegal instruction?''],
                          outp := outp io @
                            [ExecLine (PC vm) ''illegal'' (ins_r ins) (ins_l ins) (ins_m ins)
                               (PC vm + 1) (BP vm) (SP vm) dmp,
                             HLT_line]\<rparr>))) \<and>
   (fetch code junk (PC vm) = Inr ins \<and> (ins_op ins < 0 \<or> 24 < ins_op ins) \<longrightarrow>
      run_loop d (Suc n) code junk vm io = Inl OpcodeIndex) \<and>
   (length code \<le> MAX_CODE_LENGTH \<and> ins \<in> set code \<and> (ins_op ins < 0 \<or> 24 < ins_op ins) \<longrightarrow>
      simulateVM d n code junk io = Inl OpcodeIndex) \<and>
   (ins_op ins = INC \<longrightarrow>
      executeInstruction vm ins io = Inr (CONT, vm\<lparr>SP := w32 (SP vm + ins_m ins)\<rparr>, io)) \<and>
   ((ins_op ins = DIV \<or> ins_op ins = MOD) \<and> rd_reg vm (ins_l ins) = Inr a \<and>
      rd_reg vm (ins_m ins) = Inr 0 \<longrightarrow>
      executeInstruction vm ins io = Inl DivideByZero) \<and>
   (int (length code) \<le> PC vm \<and> PC vm < int MAX_CODE_LENGTH \<longrightarrow>
      fetch code junk (PC vm) = Inr (junk (nat (PC vm)))) \<and>
   (PC vm < 0 \<or> int MAX_CODE_LENGTH \<le> PC vm \<longrightarrow>
      run_loop d (Suc n) code junk vm io = Inl FetchIndex)"
proof (intro conjI impI)
  assume "ins_op ins < 1 \<or> 24 < ins_op ins"
  then show "executeInstruction vm ins io =
      Inr (HALT, vm, io\<lparr>vmErr := vmErr io @ [''Illegal instruction?'']\<rparr>)"
    by (rule executeInstruction_illegal)
next
  assume "fetch code junk (PC vm) = Inr ins \<and> ins_op ins = 0"
  then show "run_loop d (Suc n) code junk vm io =
      bnd (dumpStack d (stack vm) (SP vm) (BP vm))
        (\<lambda>dmp. Inr (vm\<lparr>PC := PC vm + 1\<rparr>,
                     io\<lparr>vmErr := vmErr io @ [''Illegal instruction?''],
                        outp := outp io @
                          [ExecLine (PC vm) ''illegal'' (ins_r ins) (ins_l ins) (ins_m ins)
                             (PC vm + 1) (BP vm) (SP vm) dmp,
                           HLT_line]\<rparr>))"
    using run_loop_illegal by blast
next
  assume "fetch code junk (PC vm) = Inr ins \<and> (ins_op ins < 0 \<or> 24 < ins_op ins)"
  then show "run_loop d (Suc n) code junk vm io = Inl OpcodeIndex"
    using run_loop_outside by blast
next
  assume "length code \<le> MAX_CODE_LENGTH \<and> ins \<in> set code \<and>
      (ins_op ins < 0 \<or> 24 < ins_op ins)"
  then show "simulateVM d n code junk io = Inl OpcodeIndex"
    using simulateVM_outside by blast
next
  assume "ins_op ins = INC"
  then show "executeInstruction vm ins io =
      Inr (CONT, vm\<lparr>SP := w32 (SP vm + ins_m ins)\<rparr>, io)"
    by (rule executeInstruction_INC)
next
  assume "(ins_op ins = DIV \<or> ins_op ins = MOD) \<and> rd_reg vm (ins_l ins) = Inr a \<and>
      rd_reg vm (ins_m ins) = Inr 0"
  then show "executeInstruction vm ins io = Inl DivideByZero"
    using executeInstruction_zero_divisor by blast
next
  assume "int (length code) \<le> PC vm \<and> PC vm < int MAX_CODE_LENGTH"
  then show "fetch code junk (PC vm) = Inr (junk (nat (PC vm)))"
    using fetch_uninitialised by blast
next
  assume "PC vm < 0 \<or> int MAX_CODE_LENGTH \<le> PC vm"
  then show "run_loop d (Suc n) code junk vm io = Inl FetchIndex"
    by (rule run_loop_fetch_outside)
qed

theorem vm_checks_only_the_opcode_witness:
  "executeInstruction initVM \<lparr>ins_op = 0, ins_r = 0, ins_l = 0, ins_m = 0\<rparr>
       \<lparr>vmIn = [], vmOut = [], vmErr = [], outp = []\<rparr>
     = Inr (HALT, initVM,
            \<lparr>vmIn = [], vmOut = [], vmErr = [''Illegal instruction?''], outp = []\<rparr>) \<and>
   run_loop 1 (Suc 0) [\<lparr>ins_op = 0, ins_r = 0, ins_l = 0, ins_m = 0\<rparr>]
       (\<lambda>k. \<lparr>ins_op = 0, ins_r = 0, ins_l = 0, ins_m = 0\<rparr>) initVM
       \<lparr>vmIn = [], vmOut = [], vmErr = [], outp = []\<rparr>
     = Inr (initVM\<lparr>PC := 1\<rparr>,
            \<lparr>vmIn = [], vmOut = [], vmErr = [''Illegal instruction?''],
               outp = [ExecLine 0 ''illegal'' 0 0 0 1 1 0 [Cell 0], HLT_line]\<rparr>) \<and>
   executeInstruction initVM \<lparr>ins_op = 25, ins_r = 0, ins_l = 0, ins_m = 0\<rparr>
       \<lparr>vmIn = [], vmOut = [], vmErr = [], outp = []\<rparr>
     = Inr (HALT, initVM,
            \<lparr>vmIn = [], vmOut = [], vmErr = [''Illegal instruction?''], outp = []\<rparr>) \<and>
   run_loop 1 (Suc 0) [\<lparr>ins_op = 25, ins_r = 0, ins_l = 0, ins_m = 0\<rparr>]
       (\<lambda>k. \<lparr>ins_op = 0, ins_r = 0, ins_l = 0, ins_m = 0\<rparr>) initVM
       \<lparr>vmIn = [], vmOut = [], vmErr = [], outp = []\<rparr>
     = Inl OpcodeIndex \<and>
   simulateVM 1 10
       [\<lparr>ins_op = SIO_HALT, ins_r = 0, ins_l = 0, ins_m = 3\<rparr>,
        \<lparr>ins_op = 25, ins_r = 0, ins_l = 0, ins_m = 0\<rparr>]
       (\<lambda>k. \<lparr>ins_op = 0, ins_r = 0, ins_l = 0, ins_m = 0\<rparr>)
       \<lparr>vmIn = [], vmOut = [], vmErr = [], outp = []\<rparr>
     = Inl OpcodeIndex \<and>
   executeInstruction (initVM\<lparr>SP := 2147483647\<rparr>)
       \<lparr>ins_op = INC, ins_r = 0, ins_l = 0, ins_m = 2\<rparr>
       \<lparr>vmIn = [], vmOut = [], vmErr = [], outp = []\<rparr>
     = Inr (CONT, initVM\<lparr>SP := - 2147483647\<rparr>,
            \<lparr>vmIn = [], vmOut = [], vmErr = [], outp = []\<rparr>) \<and>
   executeInstruction initVM \<lparr>ins_op = DIV, ins_r = 0, ins_l = 0, ins_m = 0\<rparr>
       \<lparr>vmIn = [], vmOut = [], vmErr = [], outp = []\<rparr>
     = Inl DivideByZero \<and>
   fetch [\<lparr>ins_op = JMP, ins_r = 0, ins_l = 0, ins_m = 5\<rparr>]
       (\<lambda>k. \<lparr>ins_op = LIT, ins_r = 0, ins_l = 0, ins_m = int k\<rparr>) (PC (initVM\<lparr>PC := 5\<rparr>))
     = Inr \<lparr>ins_op = LIT, ins_r = 0, ins_l = 0, ins_m = 5\<rparr> \<and>
   run_loop 1 (Suc 0) [\<lparr>ins_op = JMP, ins_r = 0, ins_l = 0, ins_m = 500\<rparr>]
       (\<lambda>k. \<lparr>ins_op = 0, ins_r = 0, ins_l = 0, ins_m = 0\<rparr>) (initVM\<lparr>PC := 500\<rparr>)
       \<lparr>vmIn = [], vmOut = [], vmErr = [], outp = []\<rparr>
     = Inl FetchIndex"
proof -
  let ?io = "\<lparr>vmIn = [], vmOut = [], vmErr = [], outp = []\<rparr>"
  let ?z = "\<lambda>k::nat. \<lparr>ins_op = 0, ins_r = 0, ins_l = 0, ins_m = 0\<rparr>"
  let ?bad = "\<lparr>ins_op = 0, ins_r = 0, ins_l = 0, ins_m = 0\<rparr>"
  let ?b25 = "\<lparr>ins_op = 25, ins_r = 0, ins_l = 0, ins_m = 0\<rparr>"
  let ?hlt = "\<lparr>ins_op = SIO_HALT, ins_r = 0, ins_l = 0, ins_m = 3\<rparr>"
  let ?inc = "\<lparr>ins_op = INC, ins_r = 0, ins_l = 0, ins_m = 2\<rparr>"
  let ?div = "\<lparr>ins_op = DIV, ins_r = 0, ins_l = 0, ins_m = 0\<rparr>"
  let ?jmp = "\<lparr>ins_op = JMP, ins_r = 0, ins_l = 0, ins_m = 5\<rparr>"
  let ?far = "\<lparr>ins_op = JMP, ins_r = 0, ins_l = 0, ins_m = 500\<rparr>"
  let ?lit = "\<lambda>k::nat. \<lparr>ins_op = LIT, ins_r = 0, ins_l = 0, ins_m = int k\<rparr>"
  have pc: "PC initVM = 0" and sp: "SP initVM = 0" and bp: "BP initVM = 1"
    by (simp_all add: initVM_def)
  have r0: "rd_reg initVM 0 = Inr 0" by (simp add: rd_reg_def initVM_def)
  have f0: "fetch [i] j 0 = Inr i" for i j by (simp add: fetch_def MAX_CODE_LENGTH_def)
  have ds: "dumpStack 1 (stack initVM) 0 1 = Inr [Cell 0]" by (simp add: bnd_def)
  have a: "executeInstruction initVM ?bad ?io =
      Inr (HALT, initVM, ?io\<lparr>vmErr := [''Illegal instruction?'']\<rparr>)"
    using vm_checks_only_the_opcode [of ?bad initVM ?io "[?bad]" ?z 1 0 0] by simp
  have b: "run_loop 1 (Suc 0) [?bad] ?z initVM ?io =
      Inr (initVM\<lparr>PC := 1\<rparr>,
           ?io\<lparr>vmErr := [''Illegal instruction?''],
               outp := [ExecLine 0 ''illegal'' 0 0 0 1 1 0 [Cell 0], HLT_line]\<rparr>)"
    using vm_checks_only_the_opcode [of ?bad initVM ?io "[?bad]" ?z 1 0 0] pc sp bp f0 ds
    by (simp add: bnd_def)
  have c: "executeInstruction initVM ?b25 ?io =
      Inr (HALT, initVM, ?io\<lparr>vmErr := [''Illegal instruction?'']\<rparr>)"
    using vm_checks_only_the_opcode [of ?b25 initVM ?io "[?b25]" ?z 1 0 0] by simp
  have d: "run_loop 1 (Suc 0) [?b25] ?z initVM ?io = Inl OpcodeIndex"
    using vm_checks_only_the_opcode [of ?b25 initVM ?io "[?b25]" ?z 1 0 0] pc f0 by simp
  have e: "simulateVM 1 10 [?hlt, ?b25] ?z ?io = Inl OpcodeIndex"
    using vm_checks_only_the_opcode [of ?b25 initVM ?io "[?hlt, ?b25]" ?z 1 10 0]
    by (simp add: MAX_CODE_LENGTH_def)
  have f: "executeInstruction (initVM\<lparr>SP := 2147483647\<rparr>) ?inc ?io =
      Inr (CONT, initVM\<lparr>SP := - 2147483647\<rparr>, ?io)"
    using vm_checks_only_the_opcode [of ?inc "initVM\<lparr>SP := 2147483647\<rparr>" ?io "[]" ?z 1 0 0]
    by (simp add: w32_def)
  have g: "executeInstruction initVM ?div ?io = Inl DivideByZero"
    using vm_checks_only_the_opcode [of ?div initVM ?io "[]" ?z 1 0 0] r0 by simp
  have h: "fetch [?jmp] ?lit (PC (initVM\<lparr>PC := 5\<rparr>)) =
      Inr \<lparr>ins_op = LIT, ins_r = 0, ins_l = 0, ins_m = 5\<rparr>"
    using vm_checks_only_the_opcode [of ?jmp "initVM\<lparr>PC := 5\<rparr>" ?io "[?jmp]" ?lit 1 0 0]
    by (simp add: MAX_CODE_LENGTH_def)
  have i: "run_loop 1 (Suc 0) [?far] ?z (initVM\<lparr>PC := 500\<rparr>) ?io = Inl FetchIndex"
    using vm_checks_only_the_opcode [of ?far "initVM\<lparr>PC := 500\<rparr>" ?io "[?far]" ?z 1 0 0]
    by (simp add: MAX_CODE_LENGTH_def)
  from a b c d e f g h i show ?thesis by simp
qed

text \<open>
  C2, as stated, fails. \<open>INC 0 0 2001\<close> on the initial machine returns \<open>CONT\<close> with
  \<open>SP = 2001\<close>, beyond \<^verbatim>\<open>MAX_STACK_HEIGHT\<close>, and writes no message. The program of the
  second part first returns into a frame with base 0, so that the dump of the stack prints
  nothing, then executes the same \<open>INC\<close>: the run goes on with \<open>SP = 2001\<close>, writes 7 and
  ends at its \<open>SIO_HALT\<close>. \<open>DIV\<close> with a zero divisor ends undefined, not with a halt.
  A jump past the loaded code goes on with whatever the code memory holds there, here
  three instructions that write 7, and a jump out of the code memory ends undefined.
\<close>

theorem vm_runs_on_past_stack_limit:
  "(case executeInstruction initVM \<lparr>ins_op = INC, ins_r = 0, ins_l = 0, ins_m = 2001\<rparr>
           \<lparr>vmIn = [], vmOut = [], vmErr = [], outp = []\<rparr>
    of Inl u \<Rightarrow> False
     | Inr (status, vm, io) \<Rightarrow>
         status = CONT \<and> SP vm = 2001 \<and> int MAX_STACK_HEIGHT < SP vm \<and> vmErr io = [] \<and>
         outp io = []) \<and>
   (case simulateVM 1 10
           [\<lparr>ins_op = LIT, ins_r = 0, ins_l = 0, ins_m = 3\<rparr>,
            \<lparr>ins_op = STO, ins_r = 0, ins_l = 0, ins_m = 3\<rparr>,
            \<lparr>ins_op = RTN, ins_r = 0, ins_l = 0, ins_m = 0\<rparr>,
            \<lparr>ins_op = INC, ins_r = 0, ins_l = 0, ins_m = 2001\<rparr>,
            \<lparr>ins_op = LIT, ins_r = 0, ins_l = 0, ins_m = 7\<rparr>,
            \<lparr>ins_op = SIO_WRITE, ins_r = 0, ins_l = 0, ins_m = 1\<rparr>,
            \<lparr>ins_op = SIO_HALT, ins_r = 0, ins_l = 0, ins_m = 3\<rparr>]
           (\<lambda>k. \<lparr>ins_op = 0, ins_r = 0, ins_l = 0, ins_m = 0\<rparr>)
           \<lparr>vmIn = [], vmOut = [], vmErr = [], outp = []\<rparr>
    of Inl u \<Rightarrow> False
     | Inr (vm, io) \<Rightarrow>
         SP vm = 2001 \<and> int MAX_STACK_HEIGHT < SP vm \<and> PC vm = 7 \<and> vmOut io = [7] \<and>
         vmErr io = []) \<and>
   executeInstruction initVM \<lparr>ins_op = DIV, ins_r = 0, ins_l = 0, ins_m = 0\<rparr>
       \<lparr>vmIn = [], vmOut = [], vmErr = [], outp = []\<rparr>
     = Inl DivideByZero \<and>
   (case simulateVM 1 10
           [\<lparr>ins_op = JMP, ins_r = 0, ins_l = 0, ins_m = 5\<rparr>,
            \<lparr>ins_op = SIO_HALT, ins_r = 0, ins_l = 0, ins_m = 3\<rparr>]
           (\<lambda>k. if k = 5 then \<lparr>ins_op = LIT, ins_r = 0, ins_l = 0, ins_m = 7\<rparr>
                 else if k = 6 then \<lparr>ins_op = SIO_WRITE, ins_r = 0, ins_l = 0, ins_m = 1\<rparr>
                 else \<lparr>ins_op = SIO_HALT, ins_r = 0, ins_l = 0, ins_m = 3\<rparr>)
           \<lparr>vmIn = [], vmOut = [], vmErr = [], outp = []\<rparr>
    of Inl u \<Rightarrow> False
     | Inr (vm, io) \<Rightarrow> PC vm = 8 \<and> vmOut io = [7] \<and> vmErr io = []) \<and>
   simulateVM 1 10
       [\<lparr>ins_op = JMP, ins_r = 0, ins_l = 0, ins_m = 500\<rparr>,
        \<lparr>ins_op = SIO_HALT, ins_r = 0, ins_l = 0, ins_m = 3\<rparr>]
       (\<lambda>k. \<lparr>ins_op = 0, ins_r = 0, ins_l = 0, ins_m = 0\<rparr>)
       \<lparr>vmIn = [], vmOut = [], vmErr = [], outp = []\<rparr>
     = Inl FetchIndex"
  by code_simp

text \<open>
  Two more runs. With a code memory that reads as zero, the jump past the loaded code
  fetches opcode 0 and the machine stops in the \<^verbatim>\<open>default\<close> case: the message is that of
  an illegal instruction. And the program that starts with \<open>INC 0 0 2001\<close> in the initial
  frame ends undefined in the dump of the stack, which reads the cells \<open>1 .. 2001\<close>.
\<close>

lemma jump_past_code_zero_memory:
  "(case simulateVM 1 10
           [\<lparr>ins_op = JMP, ins_r = 0, ins_l = 0, ins_m = 5\<rparr>,
            \<lparr>ins_op = SIO_HALT, ins_r = 0, ins_l = 0, ins_m = 3\<rparr>]
           (\<lambda>k. \<lparr>ins_op = 0, ins_r = 0, ins_l = 0, ins_m = 0\<rparr>)
           \<lparr>vmIn = [], vmOut = [], vmErr = [], outp = []\<rparr>
    of Inl u \<Rightarrow> False
     | Inr (vm, io) \<Rightarrow>
         PC vm = 6 \<and> vmErr io = [''Illegal instruction?''] \<and>
         outp io =
           [CodeLine 0 ''jmp'' 0 0 5, CodeLine 1 ''sio'' 0 0 3,
            ExecLine 0 ''jmp'' 0 0 5 5 1 0 [Cell 0],
            ExecLine 5 ''illegal'' 0 0 0 6 1 0 [Cell 0], HLT_line])"
  by code_simp

lemma dump_reads_past_stack:
  "simulateVM 1 10
       [\<lparr>ins_op = INC, ins_r = 0, ins_l = 0, ins_m = 2001\<rparr>,
        \<lparr>ins_op = LIT, ins_r = 0, ins_l = 0, ins_m = 7\<rparr>,
        \<lparr>ins_op = SIO_WRITE, ins_r = 0, ins_l = 0, ins_m = 1\<rparr>,
        \<lparr>ins_op = SIO_HALT, ins_r = 0, ins_l = 0, ins_m = 3\<rparr>]
       (\<lambda>k. \<lparr>ins_op = 0, ins_r = 0, ins_l = 0, ins_m = 0\<rparr>)
       \<lparr>vmIn = [], vmOut = [], vmErr = [], outp = []\<rparr>
     = Inl StackIndex"
  by code_simp

end
